theory Spec2Isabelle
  imports Main "HOL-Library.Sublist"
begin

section \<open>Python strings\<close>

text \<open>
  A Python \<open>str\<close> is a sequence of Unicode code points, modelled by a list of natural
  numbers. \<open>x in s\<close> on strings is \<^const>\<open>sublist\<close> (a contiguous run),
  \<open>s.startswith(x)\<close> is \<^const>\<open>prefix\<close>. A literal of the sources is written with its
  ASCII text, \<open>ascii ''...''\<close>, and the code points of its other characters.
\<close>

type_synonym str = "nat list"

definition ascii :: "string \<Rightarrow> str" where
  "ascii cs = map of_char cs"

text \<open>
  \<open>str.strip()\<close> and \<open>str.upper()\<close> are built into Python and follow the Unicode
  character database. On ASCII they are written out here. Outside ASCII the database is a
  parameter of the model: \<open>whitespace\<close> says which code points \<open>str.strip()\<close> removes, and
  \<open>to_upper\<close> gives the upper-case mapping of a code point, which may be several code
  points long. Every property below is proved for every such database.
\<close>

record unicode =
  to_upper :: "nat \<Rightarrow> str"
  whitespace :: "nat \<Rightarrow> bool"

definition is_space :: "unicode \<Rightarrow> nat \<Rightarrow> bool" where
  "is_space ucd c =
     (if c < 128
      then c \<in> set [0x09, 0x0A, 0x0B, 0x0C, 0x0D, 0x1C, 0x1D, 0x1E, 0x1F, 0x20]
      else whitespace ucd c)"

definition lstrip :: "unicode \<Rightarrow> str \<Rightarrow> str" where
  "lstrip ucd s = dropWhile (is_space ucd) s"

definition rstrip :: "unicode \<Rightarrow> str \<Rightarrow> str" where
  "rstrip ucd s = rev (dropWhile (is_space ucd) (rev s))"

definition strip :: "unicode \<Rightarrow> str \<Rightarrow> str" where
  "strip ucd s = rstrip ucd (lstrip ucd s)"

text \<open>\<open>str.upper()\<close> maps every character on its own and joins the results.\<close>

definition upper_char :: "unicode \<Rightarrow> nat \<Rightarrow> str" where
  "upper_char ucd c =
     (if c < 128
      then [if 97 \<le> c \<and> c \<le> 122 then c - 32 else c]
      else to_upper ucd c)"

definition upper :: "unicode \<Rightarrow> str \<Rightarrow> str" where
  "upper ucd s = concat (map (upper_char ucd) s)"

text \<open>
  \<open>s.replace(old, new)\<close>: every occurrence of \<open>old\<close>, found from the left and not
  overlapping, becomes \<open>new\<close>. With an empty \<open>old\<close>, Python puts \<open>new\<close> before every
  character and at the end.
\<close>

function replace_from :: "str \<Rightarrow> str \<Rightarrow> str \<Rightarrow> str" where
  "replace_from old new [] = []"
| "replace_from old new (c # cs) =
     (if old \<noteq> [] \<and> prefix old (c # cs)
      then new @ replace_from old new (drop (length old) (c # cs))
      else c # replace_from old new cs)"
  by pat_completeness auto
termination
  by (relation "measure (\<lambda>(old, new, s). length s)") (auto simp: neq_Nil_conv)

declare replace_from.simps [simp del]

definition replace :: "str \<Rightarrow> str \<Rightarrow> str \<Rightarrow> str" where
  "replace s old new =
     (if old = [] then new @ concat (map (\<lambda>c. c # new) s) else replace_from old new s)"

text \<open>\<open>str(n)\<close> for a non-negative integer: its decimal digits.\<close>

function str_nat :: "nat \<Rightarrow> str" where
  "str_nat n =
     (if n < 10 then [48 + n] else str_nat (n div 10) @ [48 + n mod 10])"
  by pat_completeness auto
termination
  by (relation "measure id") auto

declare str_nat.simps [simp del]

text \<open>
  Newline, the code fence of three backquotes, and the characters outside ASCII that the
  sources use: the accented vowels and the icons of the messages.
\<close>

definition nl :: str where "nl = [0x0A]"
definition fence :: str where "fence = [0x60, 0x60, 0x60]"
definition a_acute :: str where "a_acute = [0xE1]"
definition o_acute :: str where "o_acute = [0xF3]"
definition u_acute :: str where "u_acute = [0xFA]"
definition cross_mark :: str where "cross_mark = [0x274C]"
definition check_mark :: str where "check_mark = [0x2705]"
definition target_icon :: str where "target_icon = [0x1F3AF]"
definition bolt_icon :: str where "bolt_icon = [0x26A1]"
definition user_icon :: str where "user_icon = [0x1F464]"
definition robot_icon :: str where "robot_icon = [0x1F916]"

section \<open>Effects: external calls, exceptions and the interface log\<close>

text \<open>
  The methods call the provider library (\<open>genai\<close>), the database driver (\<open>pyodbc\<close>,
  \<open>pandas\<close>) and the user interface (\<open>st\<close>). Every such call is recorded, in order, in
  a log of events. A call of the provider or of the driver either returns or raises an
  \<open>Exception\<close>, of which the model keeps \<open>str(e)\<close>; the calls of the user interface
  display a message and return.
\<close>

datatype event =
    GenaiConfigure str
  | GenaiListModels
  | GenerateContent str str
  | PyodbcConnect str
  | ReadSqlQuery str nat
  | ConnClose nat
  | StError str
  | StSuccess str
  | StSidebarError str
  | StSidebarSuccess str
  | StSidebarInfo str
  | StSidebarWarning str

datatype 'a res = Ret 'a | Raise str

type_synonym 'a io = "event list \<Rightarrow> 'a res \<times> event list"

definition ret :: "'a \<Rightarrow> 'a io" where
  "ret v log = (Ret v, log)"

definition bind :: "'a io \<Rightarrow> ('a \<Rightarrow> 'b io) \<Rightarrow> 'b io" where
  "bind m f log =
     (case m log of (Ret v, log') \<Rightarrow> f v log' | (Raise e, log') \<Rightarrow> (Raise e, log'))"

text \<open>\<open>try: m except Exception as e: h(str(e))\<close>\<close>

definition try_except :: "'a io \<Rightarrow> (str \<Rightarrow> 'a io) \<Rightarrow> 'a io" where
  "try_except m h log =
     (case m log of (Ret v, log') \<Rightarrow> (Ret v, log') | (Raise e, log') \<Rightarrow> h e log')"

text \<open>An external call: the event is logged, then the call returns or raises.\<close>

definition call :: "event \<Rightarrow> str + 'a \<Rightarrow> 'a io" where
  "call ev r log = (case r of Inl e \<Rightarrow> (Raise e, log @ [ev]) | Inr v \<Rightarrow> (Ret v, log @ [ev]))"

definition display :: "event \<Rightarrow> unit io" where
  "display ev log = (Ret (), log @ [ev])"

section \<open>\<open>SQLGenerator\<close> (sql\_generator.py)\<close>

text \<open>
  The provider library, as the generator sees it: \<open>genai.configure\<close>,
  \<open>genai.list_models\<close> read into the list of the models' names, and
  \<open>model.generate_content(prompt)\<close> followed by \<open>response.text\<close>, for the model of a
  given name. \<open>genai.GenerativeModel(name)\<close> builds the model object, which the model
  identifies with its name.
\<close>

record genai =
  configure :: "str \<Rightarrow> str + unit"
  list_models :: "str + str list"
  generate_content :: "str \<Rightarrow> str \<Rightarrow> str + str"

record sql_generator =
  model :: "str option"
  api_key :: "str option"
  pubs_schema :: str

definition preferred_models :: "str list" where
  "preferred_models = [ascii ''gemini-1.5-pro'', ascii ''gemini-1.5-flash'', ascii ''gemini-1.0-pro'', ascii ''gemini-pro'']"

text \<open>The inner loop of \<open>_get_compatible_model\<close>: the first available name that contains \<open>preferred\<close>.\<close>

fun find_available :: "str \<Rightarrow> str list \<Rightarrow> str option" where
  "find_available preferred [] = None"
| "find_available preferred (available # rest) =
     (if sublist preferred available then Some available else find_available preferred rest)"

text \<open>The outer loop, over the preferred names in their order.\<close>

fun find_preferred :: "str list \<Rightarrow> str list \<Rightarrow> str option" where
  "find_preferred [] available_models = None"
| "find_preferred (preferred # rest) available_models =
     (case find_available preferred available_models of
        Some available \<Rightarrow> Some available
      | None \<Rightarrow> find_preferred rest available_models)"

text \<open>The model that \<open>_get_compatible_model\<close> picks, as a function of the available names.\<close>

definition select_model :: "str list \<Rightarrow> str option" where
  "select_model available_models =
     (case find_preferred preferred_models available_models of
        Some available \<Rightarrow> Some available
      | None \<Rightarrow> (case available_models of [] \<Rightarrow> None | first # _ \<Rightarrow> Some first))"

definition get_compatible_model :: "genai \<Rightarrow> str option io" where
  "get_compatible_model api =
     try_except
       (bind (call GenaiListModels (list_models api)) (\<lambda>available_models.
          case find_preferred preferred_models available_models of
            Some available \<Rightarrow>
              bind (display (StSidebarInfo (target_icon @ ascii '' Modelo seleccionado: '' @ available)))
                (\<lambda>_. ret (Some available))
          | None \<Rightarrow>
              (case available_models of
                 first # _ \<Rightarrow>
                   bind (display (StSidebarWarning (bolt_icon @ ascii '' Usando modelo disponible: '' @ first)))
                     (\<lambda>_. ret (Some first))
               | [] \<Rightarrow> ret None)))
       (\<lambda>e. bind (display (StSidebarError (ascii ''Error detectando modelos: '' @ e))) (\<lambda>_. ret None))"

text \<open>
  \<open>set_api_key\<close> returns its result together with the generator as the call leaves it:
  the key is stored before anything can raise, the model only when detection has returned.
\<close>

definition set_api_key :: "sql_generator \<Rightarrow> genai \<Rightarrow> str \<Rightarrow> (bool \<times> sql_generator) io" where
  "set_api_key self api key =
     try_except
       (bind (call (GenaiConfigure key) (configure api key)) (\<lambda>_.
        bind (get_compatible_model api) (\<lambda>m.
        bind (if m \<noteq> None
              then display (StSidebarSuccess (check_mark @ ascii '' Modelo Gemini configurado''))
              else display (StSidebarError (cross_mark @ ascii '' No se pudo inicializar el modelo Gemini'')))
          (\<lambda>_. ret (True, self\<lparr>api_key := Some key, model := m\<rparr>)))))
       (\<lambda>e. bind (display (StSidebarError (cross_mark @ ascii '' Error configurando Gemini: '' @ e)))
          (\<lambda>_. ret (False, self\<lparr>api_key := Some key\<rparr>)))"

definition is_configured :: "sql_generator \<Rightarrow> bool" where
  "is_configured self = (model self \<noteq> None \<and> api_key self \<noteq> None)"

definition create_sql_prompt :: "sql_generator \<Rightarrow> str \<Rightarrow> str" where
  "create_sql_prompt self user_query =
     nl @
     ascii ''        Eres un experto en SQL Server y la base de datos Pubs. '' @ nl @
     ascii ''        Convierte la siguiente pregunta en lenguaje natural a una consulta SQL v'' @ a_acute @
       ascii ''lida para SQL Server.'' @ nl @
     ascii ''        '' @ nl @
     ascii ''        ESQUEMA DE LA BASE DE DATOS:'' @ nl @
     ascii ''        '' @ pubs_schema self @ nl @
     ascii ''        '' @ nl @
     ascii ''        REGLAS IMPORTANTES:'' @ nl @
     ascii ''        1. Devuelve SOLO el c'' @ o_acute @ ascii ''digo SQL, sin explicaciones'' @ nl @
     ascii ''        2. Usa JOINs cuando sea necesario para relacionar tablas'' @ nl @
     ascii ''        3. Incluye los campos relevantes seg'' @ u_acute @ ascii ''n la pregunta'' @ nl @
     ascii ''        4. Usa WHERE para filtrar cuando sea apropiado'' @ nl @
     ascii ''        5. Usa ORDER BY para ordenar cuando sea relevante'' @ nl @
     ascii ''        6. Usa funciones de agregaci'' @ o_acute @ ascii ''n (COUNT, SUM, AVG) cuando sea necesario'' @ nl @
     ascii ''        7. Aseg'' @ u_acute @ ascii ''rate de que la sintaxis sea v'' @ a_acute @ ascii ''lida para SQL Server'' @ nl @
     ascii ''        8. No incluyas texto adicional, solo el c'' @ o_acute @ ascii ''digo SQL'' @ nl @
     ascii ''        '' @ nl @
     ascii ''        PREGUNTA: '' @ user_query @ nl @
     ascii ''        '' @ nl @
     ascii ''        SQL:'' @ nl @
     ascii ''        ''"

text \<open>The loop of \<open>_validate_sql\<close> over the required keywords.\<close>

fun has_keywords :: "str list \<Rightarrow> str \<Rightarrow> bool" where
  "has_keywords [] sql_upper = True"
| "has_keywords (keyword # rest) sql_upper =
     (if \<not> sublist keyword sql_upper then False else has_keywords rest sql_upper)"

definition validate_sql :: "unicode \<Rightarrow> str \<Rightarrow> bool" where
  "validate_sql ucd sql_query =
     (if sql_query = [] \<or> prefix (ascii ''Error:'') sql_query then False
      else has_keywords [ascii ''SELECT'', ascii ''FROM''] (upper ucd sql_query))"

text \<open>The cleaning of the provider's text in \<open>generate_sql\<close>.\<close>

definition clean_response :: "unicode \<Rightarrow> str \<Rightarrow> str" where
  "clean_response ucd text =
     strip ucd (replace (replace (strip ucd text) (fence @ ascii ''sql'') []) fence [])"

definition generate_sql :: "unicode \<Rightarrow> sql_generator \<Rightarrow> genai \<Rightarrow> str \<Rightarrow> str io" where
  "generate_sql ucd self api natural_language_query =
     (if \<not> is_configured self
      then ret (ascii ''Error: API Key no configurada. Verifica el archivo .env'')
      else
        let prompt = create_sql_prompt self natural_language_query in
        try_except
          (bind (call (GenerateContent (the (model self)) prompt)
                   (generate_content api (the (model self)) prompt)) (\<lambda>text.
             let sql_query = clean_response ucd text in
             if validate_sql ucd sql_query then ret sql_query
             else ret (ascii ''Error: Consulta SQL no v'' @ a_acute @ ascii ''lida generada: '' @ sql_query)))
          (\<lambda>e. ret (ascii ''Error: '' @ e)))"

section \<open>\<open>DatabaseClient\<close> (database\_client.py)\<close>

text \<open>
  The driver: \<open>pyodbc.connect\<close> gives a connection (a handle), \<open>pd.read_sql_query\<close>
  gives the table of the rows, \<open>conn.close\<close> closes the connection. Each may raise.
\<close>

type_synonym table = "str list \<times> str list list"

record driver =
  connect :: "str \<Rightarrow> str + nat"
  read_sql_query :: "str \<Rightarrow> nat \<Rightarrow> str + table"
  close :: "nat \<Rightarrow> str + unit"

record database_client =
  connection_string :: "str option"

definition db_is_configured :: "database_client \<Rightarrow> bool" where
  "db_is_configured self =
     (case connection_string self of None \<Rightarrow> False | Some cs \<Rightarrow> length cs > 0)"

definition execute_query :: "database_client \<Rightarrow> driver \<Rightarrow> str \<Rightarrow> table option io" where
  "execute_query self drv sql_query =
     (if \<not> db_is_configured self
      then bind (display (StError (cross_mark @ ascii '' Cadena de conexi'' @ o_acute @
                   ascii ''n no configurada. Verifica el archivo .env'')))
             (\<lambda>_. ret None)
      else
        try_except
          (bind (call (PyodbcConnect (the (connection_string self)))
                   (connect drv (the (connection_string self)))) (\<lambda>conn.
           bind (call (ReadSqlQuery sql_query conn) (read_sql_query drv sql_query conn)) (\<lambda>df.
           bind (call (ConnClose conn) (close drv conn)) (\<lambda>_.
           bind (display (StSuccess (check_mark @ ascii '' Consulta ejecutada: '' @
                   str_nat (length (snd df)) @ ascii '' filas obtenidas'')))
             (\<lambda>_. ret (Some df))))))
          (\<lambda>e. bind (display (StError (cross_mark @ ascii '' Error ejecutando consulta: '' @ e)))
             (\<lambda>_. ret None)))"

section \<open>\<open>ChatInterface\<close> (chat\_interface.py)\<close>

text \<open>
  \<open>st.session_state\<close> holds the transcript under the key \<open>messages\<close>, which is absent
  until \<open>initialize_session_state\<close> has run; reading an absent key raises. The clock
  (\<open>datetime.now()\<close>, already formatted) is an argument of the calls that read it.
\<close>

record message =
  role :: str
  content :: str
  timestamp :: str

record session_state =
  messages :: "message list option"

datatype chat_error = AttributeError

definition initialize_session_state :: "session_state \<Rightarrow> session_state" where
  "initialize_session_state st =
     (if messages st = None then st\<lparr>messages := Some []\<rparr> else st)"

definition add_message :: "session_state \<Rightarrow> str \<Rightarrow> str \<Rightarrow> str \<Rightarrow> chat_error + session_state" where
  "add_message st now role' content' =
     (case messages st of
        None \<Rightarrow> Inl AttributeError
      | Some ms \<Rightarrow>
          Inr (st\<lparr>messages := Some (ms @ [\<lparr>role = role', content = content', timestamp = now\<rparr>])\<rparr>))"

text \<open>Reading the transcript (\<open>st.session_state.messages\<close>).\<close>

definition all_messages :: "session_state \<Rightarrow> chat_error + message list" where
  "all_messages st = (case messages st of None \<Rightarrow> Inl AttributeError | Some ms \<Rightarrow> Inr ms)"

text \<open>A run of \<open>add_message\<close> calls, each with the clock's reading, its role and its content.\<close>

fun add_messages :: "session_state \<Rightarrow> (str \<times> str \<times> str) list \<Rightarrow> chat_error + session_state" where
  "add_messages st [] = Inr st"
| "add_messages st ((now, role', content') # calls) =
     (case add_message st now role' content' of
        Inl e \<Rightarrow> Inl e
      | Inr st' \<Rightarrow> add_messages st' calls)"

text \<open>What one turn of the loop of \<open>export_chat\<close> appends, for the message at index \<open>i\<close>.\<close>

definition export_block :: "nat \<Rightarrow> message \<Rightarrow> str" where
  "export_block i m =
     (let role_icon = (if role m = ascii ''user'' then user_icon else robot_icon);
          role_text = (if role m = ascii ''user'' then ascii ''Usuario'' else ascii ''Assistant'')
      in (ascii ''## '') @ role_icon @ ascii '' '' @ role_text @ ascii '' - Mensaje '' @ str_nat (i + 1) @ nl @ nl @
         content m @ nl @ nl @
         ascii ''---'' @ nl @ nl)"

text \<open>The loop over \<open>enumerate(messages)\<close>, with the text built so far.\<close>

fun export_loop :: "str \<Rightarrow> nat \<Rightarrow> message list \<Rightarrow> str" where
  "export_loop export_text i [] = export_text"
| "export_loop export_text i (m # ms) = export_loop (export_text @ export_block i m) (Suc i) ms"

definition export_header :: "str \<Rightarrow> str" where
  "export_header now =
     ascii ''# Historial de Chat - Pubs SQL Assistant'' @ nl @ nl @ ascii ''Exportado: '' @ now @ nl @ nl"

definition export_chat :: "session_state \<Rightarrow> str \<Rightarrow> chat_error + str" where
  "export_chat st now =
     (case messages st of
        None \<Rightarrow> Inl AttributeError
      | Some ms \<Rightarrow>
          if ms = [] then Inr (ascii ''No hay mensajes para exportar'')
          else Inr (export_loop (export_header now) 0 ms))"

section \<open>The caller's test (app.py, \<open>process_user_input\<close>)\<close>

text \<open>\<open>if sql_query and not sql_query.startswith("Error:")\<close>\<close>

definition caller_accepts :: "str \<Rightarrow> bool" where
  "caller_accepts sql_query = (sql_query \<noteq> [] \<and> \<not> prefix (ascii ''Error:'') sql_query)"

section \<open>Notions used to state the properties\<close>

text \<open>
  \<open>kw\<close> occurs in \<open>s\<close> as a case-insensitive substring: some contiguous run of \<open>s\<close>
  equals \<open>kw\<close> up to the case of its letters.
\<close>

definition ci_substring :: "unicode \<Rightarrow> str \<Rightarrow> str \<Rightarrow> bool" where
  "ci_substring ucd kw s = (\<exists>ps u ss. s = ps @ u @ ss \<and> upper ucd u = upper ucd kw)"

text \<open>
  \<open>r\<close> is \<open>s\<close> without its leading and trailing whitespace: \<open>s\<close> is \<open>r\<close> between two
  runs of whitespace, and \<open>r\<close> neither begins nor ends with whitespace.
\<close>

definition stripped :: "unicode \<Rightarrow> str \<Rightarrow> str \<Rightarrow> bool" where
  "stripped ucd s r =
     (\<exists>pre post. s = pre @ r @ post \<and>
        list_all (is_space ucd) pre \<and> list_all (is_space ucd) post \<and>
        (r = [] \<or> (\<not> is_space ucd (hd r) \<and> \<not> is_space ucd (last r))))"

text \<open>
  \<open>r\<close> is \<open>s\<close> with every occurrence of the delimiter \<open>old\<close> taken out, the occurrences
  being found from the left and not overlapping: either \<open>old\<close> does not occur in \<open>s\<close>
  and \<open>r\<close> is \<open>s\<close>, or \<open>s\<close> is \<open>a\<close>, \<open>old\<close>, \<open>b\<close> where this is the first occurrence of
  \<open>old\<close> (none begins inside \<open>a\<close>), and \<open>r\<close> is \<open>a\<close> followed by \<open>b\<close> treated likewise.
\<close>

inductive removed :: "str \<Rightarrow> str \<Rightarrow> str \<Rightarrow> bool" for old :: str where
  none: "\<not> sublist old s \<Longrightarrow> removed old s s"
| first: "\<not> sublist old (a @ butlast old) \<Longrightarrow> removed old b r \<Longrightarrow>
          removed old (a @ old @ b) (a @ r)"

text \<open>
  \<open>r\<close> is the reply cleaned: whitespace stripped at both ends, then the fences with the
  \<open>sql\<close> tag taken out, then the remaining fences, then whitespace stripped again.
\<close>

definition cleaned :: "unicode \<Rightarrow> str \<Rightarrow> str \<Rightarrow> bool" where
  "cleaned ucd reply r =
     (\<exists>t1 t2 t3. stripped ucd reply t1 \<and> removed (fence @ ascii ''sql'') t1 t2 \<and>
        removed fence t2 t3 \<and> stripped ucd t3 r)"

text \<open>
  The call of \<open>generate_sql\<close> succeeds, that is, it reaches \<open>return sql_query\<close>: the
  generator is configured, the provider's call returns a text, and the cleaned text
  passes \<open>_validate_sql\<close>. On every other path the call fails.
\<close>

definition generate_sql_ok :: "unicode \<Rightarrow> sql_generator \<Rightarrow> genai \<Rightarrow> str \<Rightarrow> bool" where
  "generate_sql_ok ucd self api natural_language_query =
     (is_configured self \<and>
      (case generate_content api (the (model self)) (create_sql_prompt self natural_language_query) of
         Inl e \<Rightarrow> False
       | Inr reply \<Rightarrow> validate_sql ucd (clean_response ucd reply)))"

text \<open>
  The call of \<open>execute_query\<close> succeeds, that is, it reaches \<open>return df\<close>: a connection
  string is set and the connection, the query and the closing all return.
\<close>

definition execute_query_ok :: "database_client \<Rightarrow> driver \<Rightarrow> str \<Rightarrow> bool" where
  "execute_query_ok self drv sql_query =
     (db_is_configured self \<and>
      (case connect drv (the (connection_string self)) of
         Inl e \<Rightarrow> False
       | Inr conn \<Rightarrow>
           (case read_sql_query drv sql_query conn of
              Inl e \<Rightarrow> False
            | Inr df \<Rightarrow> (case close drv conn of Inl e \<Rightarrow> False | Inr u \<Rightarrow> True))))"

text \<open>
  The transcript of a session that has not been initialised, the message that one
  \<open>add_message\<close> call (clock reading, role, content) stores, and the reading of the
  transcript after a run of such calls.
\<close>

definition fresh_session :: session_state where
  "fresh_session = \<lparr>messages = None\<rparr>"

definition new_message :: "str \<times> str \<times> str \<Rightarrow> message" where
  "new_message c = \<lparr>role = fst (snd c), content = snd (snd c), timestamp = fst c\<rparr>"

definition read_after :: "session_state \<Rightarrow> (str \<times> str \<times> str) list \<Rightarrow> chat_error + message list" where
  "read_after st calls =
     (case add_messages st calls of Inl e \<Rightarrow> Inl e | Inr st' \<Rightarrow> all_messages st')"

text \<open>The role label of an exported block: the icon and the role's name.\<close>

definition role_label :: "message \<Rightarrow> str" where
  "role_label m =
     (if role m = ascii ''user'' then user_icon @ ascii '' Usuario'' else robot_icon @ ascii '' Assistant'')"

section \<open>Concrete inputs\<close>

text \<open>
  The entries of the Unicode database that the examples use: the sharp s U+00DF is
  upper-cased to \<open>SS\<close>, and U+0085 and U+00A0 are whitespace. The sample leaves every
  other code point outside ASCII to itself.
\<close>

definition ucd_sample :: unicode where
  "ucd_sample =
     \<lparr>to_upper = (\<lambda>c. if c = 0xDF then [0x53, 0x53] else [c]),
      whitespace = (\<lambda>c. c \<in> set [0x85, 0xA0])\<rparr>"

text \<open>A reply whose \<open>select\<close> is written with the sharp s U+00DF, and a provider that gives it.\<close>

definition sharp_s_reply :: str where
  "sharp_s_reply = [0xDF] @ ascii ''elect 1 from t''"

definition sharp_s_genai :: genai where
  "sharp_s_genai =
     \<lparr>configure = (\<lambda>_. Inr ()),
      list_models = Inr [ascii ''models/gemini-pro''],
      generate_content = (\<lambda>_ _. Inr sharp_s_reply)\<rparr>"

text \<open>A reply of the provider in a code fence, as the prompt's examples come back.\<close>

definition fenced_reply :: str where
  "fenced_reply = fence @ ascii ''sql'' @ nl @ ascii ''SELECT * FROM authors'' @ nl @ fence"

definition example_genai :: genai where
  "example_genai =
     \<lparr>configure = (\<lambda>_. Inr ()),
      list_models = Inr [ascii ''models/gemini-pro'', ascii ''models/gemini-1.5-pro-latest''],
      generate_content = (\<lambda>_ _. Inr fenced_reply)\<rparr>"

definition example_generator :: sql_generator where
  "example_generator =
     \<lparr>model = Some (ascii ''models/gemini-1.5-pro-latest''), api_key = Some (ascii ''key''), pubs_schema = []\<rparr>"

definition unconfigured_generator :: sql_generator where
  "unconfigured_generator = \<lparr>model = None, api_key = Some (ascii ''key''), pubs_schema = []\<rparr>"

definition drop_genai :: genai where
  "drop_genai =
     \<lparr>configure = (\<lambda>_. Inr ()),
      list_models = Inr [ascii ''models/gemini-pro''],
      generate_content = (\<lambda>_ _. Inr (ascii ''DROP TABLE authors''))\<rparr>"

text \<open>A client with a connection string, and a driver that connects and then rejects the statement.\<close>

definition pubs_client :: database_client where
  "pubs_client = \<lparr>connection_string = Some (ascii ''DSN=pubs'')\<rparr>"

definition failing_driver :: driver where
  "failing_driver =
     \<lparr>connect = (\<lambda>_. Inr 7),
      read_sql_query = (\<lambda>_ _. Inl (ascii ''Incorrect syntax near SELEC'')),
      close = (\<lambda>_. Inr ())\<rparr>"

text \<open>
  Providers on which configuration fails: listing the models raises; \<open>genai.configure\<close>
  raises; the account has no model.
\<close>

definition no_models_genai :: genai where
  "no_models_genai =
     \<lparr>configure = (\<lambda>_. Inr ()),
      list_models = Inl (ascii ''403 API key not valid''),
      generate_content = (\<lambda>_ _. Inl (ascii ''unreachable''))\<rparr>"

definition broken_genai :: genai where
  "broken_genai =
     \<lparr>configure = (\<lambda>_. Inl (ascii ''invalid credentials'')),
      list_models = Inr [ascii ''models/gemini-pro''],
      generate_content = (\<lambda>_ _. Inl (ascii ''unreachable''))\<rparr>"

definition empty_genai :: genai where
  "empty_genai =
     \<lparr>configure = (\<lambda>_. Inr ()),
      list_models = Inr [],
      generate_content = (\<lambda>_ _. Inl (ascii ''unreachable''))\<rparr>"

text \<open>Three calls of \<open>add_message\<close>, the first and the last with the same content, and a transcript of two messages.\<close>

definition example_calls :: "(str \<times> str \<times> str) list" where
  "example_calls =
     [(ascii ''2025-01-01T10:00:00'', ascii ''user'', ascii ''Autores de California''),
      (ascii ''2025-01-01T10:00:02'', ascii ''assistant'', ascii ''Consulta SQL generada''),
      (ascii ''2025-01-01T10:00:09'', ascii ''user'', ascii ''Autores de California'')]"

definition example_transcript :: "message list" where
  "example_transcript =
     [\<lparr>role = ascii ''user'', content = ascii ''Autores de California'', timestamp = ascii ''2025-01-01T10:00:00''\<rparr>,
      \<lparr>role = ascii ''assistant'', content = ascii ''Consulta SQL generada'', timestamp = ascii ''2025-01-01T10:00:02''\<rparr>]"

section \<open>Strings: auxiliary facts\<close>

lemma ascii_Nil: "ascii [] = []"
  by (simp add: ascii_def)

lemma ascii_Cons: "ascii (c # cs) = of_char c # ascii cs"
  by (simp add: ascii_def)

lemmas ascii_simps = ascii_Nil ascii_Cons

lemma ascii_chars: "c \<in> set (ascii cs) \<Longrightarrow> c < 256"
  by (auto simp: ascii_def)

lemma upper_append: "upper ucd (a @ b) = upper ucd a @ upper ucd b"
  by (simp add: upper_def)

lemma ci_substring_upper:
  "ci_substring ucd kw s \<Longrightarrow> sublist (upper ucd kw) (upper ucd s)"
proof -
  assume "ci_substring ucd kw s"
  then obtain ps u ss where "s = ps @ u @ ss" "upper ucd u = upper ucd kw"
    by (auto simp: ci_substring_def)
  then have "upper ucd s = upper ucd ps @ upper ucd kw @ upper ucd ss"
    by (simp add: upper_append)
  then show "sublist (upper ucd kw) (upper ucd s)"
    unfolding sublist_def by blast
qed

lemma map_eq_appendD:
  "map f s = a @ b \<Longrightarrow> \<exists>us vs. s = us @ vs \<and> map f us = a \<and> map f vs = b"
  by (metis append_take_drop_id drop_map take_map append_eq_conv_conj length_map)

lemma upper_single:
  "list_all (\<lambda>c. length (upper_char ucd c) = 1) s \<Longrightarrow>
     upper ucd s = map (\<lambda>c. hd (upper_char ucd c)) s"
proof (induction s)
  case Nil
  show ?case by (simp add: upper_def)
next
  case (Cons c s)
  then have "length (upper_char ucd c) = 1" by simp
  then have "upper_char ucd c = [hd (upper_char ucd c)]"
    by (cases "upper_char ucd c") simp_all
  with Cons show ?case by (simp add: upper_def)
qed

lemma upper_sublist_ci:
  assumes one: "list_all (\<lambda>c. length (upper_char ucd c) = 1) s"
    and sub: "sublist (upper ucd kw) (upper ucd s)"
  shows "ci_substring ucd kw s"
proof -
  let ?f = "\<lambda>c. hd (upper_char ucd c)"
  from sub one obtain a b where "map ?f s = a @ upper ucd kw @ b"
    by (auto simp: sublist_def upper_single)
  from map_eq_appendD[OF this]
  obtain ps rest where s: "s = ps @ rest" and r: "map ?f rest = upper ucd kw @ b"
    by blast
  from map_eq_appendD[OF r] obtain u ss where u: "rest = u @ ss" "map ?f u = upper ucd kw"
    by blast
  from one s u have "list_all (\<lambda>c. length (upper_char ucd c) = 1) u" by simp
  then have "upper ucd u = map ?f u" by (rule upper_single)
  with s u show ?thesis unfolding ci_substring_def by auto
qed

lemma has_keywords_iff: "has_keywords ks u \<longleftrightarrow> list_all (\<lambda>k. sublist k u) ks"
  by (induction ks) auto

lemma upper_SELECT: "upper ucd (ascii ''SELECT'') = ascii ''SELECT''"
  by (simp add: upper_def upper_char_def ascii_def)

lemma upper_FROM: "upper ucd (ascii ''FROM'') = ascii ''FROM''"
  by (simp add: upper_def upper_char_def ascii_def)

lemma validate_sql_iff:
  "validate_sql ucd s \<longleftrightarrow>
     \<not> prefix (ascii ''Error:'') s \<and> sublist (ascii ''SELECT'') (upper ucd s) \<and>
     sublist (ascii ''FROM'') (upper ucd s)"
proof (cases "s = []")
  case True
  then show ?thesis
    by (simp add: validate_sql_def upper_def ascii_def)
next
  case False
  then show ?thesis
    by (simp add: validate_sql_def)
qed

lemma strip_sublist: "sublist (strip ucd s) s"
proof -
  have "sublist (rev (strip ucd s)) (rev (dropWhile (is_space ucd) s))"
    by (simp add: strip_def rstrip_def lstrip_def)
  then have "sublist (strip ucd s) (dropWhile (is_space ucd) s)"
    by (simp only: sublist_rev)
  moreover have "sublist (dropWhile (is_space ucd) s) s"
    by simp
  ultimately show ?thesis
    by (rule sublist_order.order_trans)
qed

lemma dropWhile_id: "xs = [] \<or> \<not> P (hd xs) \<Longrightarrow> dropWhile P xs = xs"
  by (cases xs) auto

lemma strip_last: "strip ucd s \<noteq> [] \<Longrightarrow> \<not> is_space ucd (last (strip ucd s))"
proof -
  assume ne: "strip ucd s \<noteq> []"
  let ?r = "dropWhile (is_space ucd) (rev (lstrip ucd s))"
  from ne have r: "?r \<noteq> []" by (simp add: strip_def rstrip_def del: dropWhile_eq_Nil_conv)
  then have "\<not> is_space ucd (hd ?r)" by (rule hd_dropWhile)
  moreover have "last (strip ucd s) = hd ?r"
    using r by (simp add: strip_def rstrip_def last_rev del: dropWhile_eq_Nil_conv)
  ultimately show ?thesis by simp
qed

lemma strip_prefix_lstrip: "prefix (strip ucd s) (lstrip ucd s)"
proof -
  have "suffix (dropWhile (is_space ucd) (rev (lstrip ucd s))) (rev (lstrip ucd s))"
    by (rule suffix_dropWhile)
  then have "prefix (rev (dropWhile (is_space ucd) (rev (lstrip ucd s)))) (rev (rev (lstrip ucd s)))"
    by (simp only: suffix_to_prefix)
  then show ?thesis by (simp add: strip_def rstrip_def)
qed

lemma strip_hd: "strip ucd s \<noteq> [] \<Longrightarrow> \<not> is_space ucd (hd (strip ucd s))"
proof -
  assume ne: "strip ucd s \<noteq> []"
  have p: "prefix (strip ucd s) (lstrip ucd s)" by (rule strip_prefix_lstrip)
  with ne have lne: "lstrip ucd s \<noteq> []" by auto
  then have h: "\<not> is_space ucd (hd (lstrip ucd s))"
    unfolding lstrip_def by (rule hd_dropWhile)
  from p ne have "hd (strip ucd s) = hd (lstrip ucd s)"
    by (auto simp: prefix_def)
  with h show ?thesis by simp
qed

lemma strip_idem: "strip ucd (strip ucd s) = strip ucd s"
proof (cases "strip ucd s = []")
  case True
  then show ?thesis by (simp add: strip_def rstrip_def lstrip_def del: dropWhile_eq_Nil_conv)
next
  case False
  then have h: "\<not> is_space ucd (hd (strip ucd s))" and l: "\<not> is_space ucd (last (strip ucd s))"
    by (simp_all add: strip_hd strip_last)
  from False h have "lstrip ucd (strip ucd s) = strip ucd s"
    by (simp add: lstrip_def dropWhile_id)
  moreover from False l have "rstrip ucd (strip ucd s) = strip ucd s"
    by (simp add: rstrip_def dropWhile_id hd_rev)
  ultimately show ?thesis by (simp add: strip_def)
qed

lemma replace_triple_keeps_lead:
  "\<not> sublist [q, q, q] (replace_from [q, q, q] [] s) \<and>
   (prefix [q] (replace_from [q, q, q] [] s) \<longrightarrow> prefix [q] s) \<and>
   (prefix [q, q] (replace_from [q, q, q] [] s) \<longrightarrow> prefix [q, q] s)"
proof (induction "[q, q, q]" "[] :: str" s rule: replace_from.induct)
  case 1
  show ?case by (simp add: replace_from.simps)
next
  case (2 c cs)
  show ?case
  proof (cases "prefix [q, q, q] (c # cs)")
    case True
    then have ne: "[q, q, q] \<noteq> [] \<and> prefix [q, q, q] (c # cs)"
      by blast
    from True have eq: "replace_from [q, q, q] [] (c # cs) =
        replace_from [q, q, q] [] (drop (length [q, q, q]) (c # cs))"
      by (auto simp: replace_from.simps)
    have "prefix [q] [q, q, q]" and "prefix [q, q] [q, q, q]"
      by simp_all
    with True have "prefix [q] (c # cs)" and "prefix [q, q] (c # cs)"
      by (blast intro: prefix_order.order_trans)+
    with 2(1)[OF ne] eq show ?thesis by simp
  next
    case False
    then have nn: "\<not> ([q, q, q] \<noteq> [] \<and> prefix [q, q, q] (c # cs))" by simp
    from False have eq: "replace_from [q, q, q] [] (c # cs) = c # replace_from [q, q, q] [] cs"
      by (auto simp: replace_from.simps)
    note ih = 2(2)[OF nn]
    have np: "\<not> prefix [q, q, q] (c # replace_from [q, q, q] [] cs)"
    proof
      assume "prefix [q, q, q] (c # replace_from [q, q, q] [] cs)"
      then have c: "c = q" and "prefix [q, q] (replace_from [q, q, q] [] cs)"
        by auto
      with ih have "prefix [q, q] cs" by simp
      with c have "prefix [q, q, q] (c # cs)" by auto
      with False show False by blast
    qed
    have a: "\<not> sublist [q, q, q] (replace_from [q, q, q] [] (c # cs))"
      using np ih by (auto simp: eq sublist_Cons_right)
    have b: "prefix [q] (replace_from [q, q, q] [] (c # cs)) \<longrightarrow> prefix [q] (c # cs)"
      by (auto simp: eq)
    have d: "prefix [q, q] (replace_from [q, q, q] [] (c # cs)) \<longrightarrow> prefix [q, q] (c # cs)"
      using ih by (auto simp: eq)
    from a b d show ?thesis by blast
  qed
qed

lemma replace_fence_no_fence: "\<not> sublist fence (replace s fence [])"
  using replace_triple_keeps_lead[of "0x60" s] by (simp add: replace_def fence_def)

lemma clean_response_no_fence: "\<not> sublist fence (clean_response ucd reply)"
proof
  assume "sublist fence (clean_response ucd reply)"
  moreover have "sublist (clean_response ucd reply) (replace (replace (strip ucd reply) (fence @ ascii ''sql'') []) fence [])"
    unfolding clean_response_def by (rule strip_sublist)
  ultimately have "sublist fence (replace (replace (strip ucd reply) (fence @ ascii ''sql'') []) fence [])"
    by (rule sublist_order.order_trans)
  then show False by (simp add: replace_fence_no_fence)
qed

lemma clean_response_no_fence_sql: "\<not> sublist (fence @ ascii ''sql'') (clean_response ucd reply)"
proof
  assume "sublist (fence @ ascii ''sql'') (clean_response ucd reply)"
  moreover have "sublist fence (fence @ ascii ''sql'')" by (rule sublist_append_rightI)
  ultimately have "sublist fence (clean_response ucd reply)"
    by (rule sublist_order.order_trans[rotated])
  then show False by (simp add: clean_response_no_fence)
qed

lemma clean_response_strip: "strip ucd (clean_response ucd reply) = clean_response ucd reply"
  by (simp add: clean_response_def strip_idem)

lemma rev_split: "xs = rev (dropWhile P (rev xs)) @ rev (takeWhile P (rev xs))"
proof -
  have "rev (takeWhile P (rev xs) @ dropWhile P (rev xs)) = rev (rev xs)"
    by (simp only: takeWhile_dropWhile_id)
  then have "rev (dropWhile P (rev xs)) @ rev (takeWhile P (rev xs)) = xs"
    by (simp only: rev_append rev_rev_ident)
  then show ?thesis by (rule sym)
qed

lemma strip_stripped: "stripped ucd s (strip ucd s)"
proof -
  let ?P = "is_space ucd"
  let ?l = "dropWhile ?P s"
  let ?r = "strip ucd s"
  have r: "?r = rev (dropWhile ?P (rev ?l))"
    by (simp add: strip_def rstrip_def lstrip_def)
  have l: "?l = ?r @ rev (takeWhile ?P (rev ?l))"
    unfolding r by (rule rev_split)
  have "s = takeWhile ?P s @ ?l" by simp
  with l have s: "s = takeWhile ?P s @ ?r @ rev (takeWhile ?P (rev ?l))"
    by simp
  have pre: "list_all ?P (takeWhile ?P s)"
    by (auto simp: list_all_iff dest: set_takeWhileD)
  have post: "list_all ?P (rev (takeWhile ?P (rev ?l)))"
    by (auto simp: list_all_iff dest: set_takeWhileD)
  have ends: "?r = [] \<or> (\<not> ?P (hd ?r) \<and> \<not> ?P (last ?r))"
    using strip_hd[of ucd s] strip_last[of ucd s] by blast
  from s pre post ends show ?thesis
    unfolding stripped_def by blast
qed

lemma removed_Cons:
  assumes r: "removed old cs r" and np: "\<not> prefix old (c # cs)"
  shows "removed old (c # cs) (c # r)"
  using r
proof (cases rule: removed.cases)
  case none
  with np have "\<not> sublist old (c # cs)"
    by (simp add: sublist_Cons_right)
  with none show ?thesis by (simp add: removed.none)
next
  case (first a b r')
  have "\<not> sublist old ((c # a) @ butlast old)"
  proof
    assume "sublist old ((c # a) @ butlast old)"
    with first(3) have p: "prefix old (c # a @ butlast old)"
      by (simp add: sublist_Cons_right)
    have "prefix (butlast old) (old @ b)"
      by (metis prefix_order.order_trans prefixeq_butlast prefixI)
    then have "prefix (c # a @ butlast old) (c # a @ old @ b)"
      by simp
    with p have "prefix old (c # a @ old @ b)"
      by (rule prefix_order.order_trans)
    with np first(1) show False by simp
  qed
  from removed.first[OF this first(4)] first(1,2) show ?thesis by simp
qed

lemma replace_from_removed: "old \<noteq> [] \<Longrightarrow> removed old s (replace_from old [] s)"
proof (induction old "[] :: str" s rule: replace_from.induct)
  case (1 old)
  then have "\<not> sublist old []" by simp
  then show ?case by (simp add: replace_from.simps removed.none)
next
  case (2 old c cs)
  show ?case
  proof (cases "prefix old (c # cs)")
    case True
    with 2(3) have ne: "old \<noteq> [] \<and> prefix old (c # cs)" by blast
    let ?b = "drop (length old) (c # cs)"
    from True have split: "c # cs = [] @ old @ ?b"
      by (metis append_Nil append_take_drop_id prefixE append_eq_conv_conj)
    from ne have eq: "replace_from old [] (c # cs) = replace_from old [] ?b"
      by (simp add: replace_from.simps)
    from 2(3) have "length (butlast old) < length old" by simp
    then have "\<not> sublist old ([] @ butlast old)"
      by (auto dest: sublist_length_le)
    from removed.first[OF this 2(1)[OF ne 2(3)]] split eq show ?thesis
      by simp
  next
    case False
    then have nn: "\<not> (old \<noteq> [] \<and> prefix old (c # cs))" by blast
    from False have eq: "replace_from old [] (c # cs) = c # replace_from old [] cs"
      by (auto simp: replace_from.simps)
    from removed_Cons[OF 2(2)[OF nn 2(3)] False] eq show ?thesis by simp
  qed
qed

lemma replace_removed: "old \<noteq> [] \<Longrightarrow> removed old s (replace s old [])"
  by (simp add: replace_def replace_from_removed)

lemma clean_response_cleaned: "cleaned ucd reply (clean_response ucd reply)"
proof -
  let ?t1 = "strip ucd reply"
  let ?t2 = "replace ?t1 (fence @ ascii ''sql'') []"
  let ?t3 = "replace ?t2 fence []"
  have a: "stripped ucd reply ?t1" by (rule strip_stripped)
  have b: "removed (fence @ ascii ''sql'') ?t1 ?t2"
    by (rule replace_removed) (simp add: fence_def)
  have c: "removed fence ?t2 ?t3"
    by (rule replace_removed) (simp add: fence_def)
  have d: "stripped ucd ?t3 (strip ucd ?t3)" by (rule strip_stripped)
  from a b c d show ?thesis
    unfolding cleaned_def clean_response_def by blast
qed

lemma dropWhile_all: "list_all P xs \<Longrightarrow> dropWhile P (xs @ ys) = dropWhile P ys"
  by (simp add: list_all_iff)

lemma stripped_strip: "stripped ucd s r \<Longrightarrow> r = strip ucd s"
proof -
  let ?P = "is_space ucd"
  assume "stripped ucd s r"
  then obtain pre post where s: "s = pre @ r @ post"
    and pre: "list_all ?P pre" and post: "list_all ?P post"
    and ends: "r = [] \<or> (\<not> ?P (hd r) \<and> \<not> ?P (last r))"
    unfolding stripped_def by blast
  show ?thesis
  proof (cases "r = []")
    case True
    with s pre post have "list_all ?P s" by simp
    then have "dropWhile ?P s = []" by (simp add: list_all_iff)
    with True show ?thesis
      by (simp add: strip_def rstrip_def lstrip_def del: dropWhile_eq_Nil_conv)
  next
    case False
    with ends have h: "\<not> ?P (hd r)" and l: "\<not> ?P (last r)" by simp_all
    from False h have "dropWhile ?P (r @ post) = r @ post"
      by (cases r) simp_all
    with s pre have d: "dropWhile ?P s = r @ post"
      by (simp add: dropWhile_all)
    from post have "list_all ?P (rev post)" by (simp add: list_all_iff)
    then have "dropWhile ?P (rev post @ rev r) = dropWhile ?P (rev r)"
      by (rule dropWhile_all)
    moreover from False l have "dropWhile ?P (rev r) = rev r"
      by (simp add: dropWhile_id hd_rev)
    ultimately have "rev (dropWhile ?P (rev (r @ post))) = r" by simp
    with d show ?thesis by (simp add: strip_def rstrip_def lstrip_def)
  qed
qed

lemma replace_from_absent: "\<not> sublist old s \<Longrightarrow> replace_from old [] s = s"
proof (induction old "[] :: str" s rule: replace_from.induct)
  case (1 old)
  show ?case by (simp add: replace_from.simps)
next
  case (2 old c cs)
  from 2(3) have np: "\<not> prefix old (c # cs)" and ns: "\<not> sublist old cs"
    by (simp_all add: sublist_Cons_right)
  from np have nn: "\<not> (old \<noteq> [] \<and> prefix old (c # cs))" by blast
  from np have "replace_from old [] (c # cs) = c # replace_from old [] cs"
    by (auto simp: replace_from.simps)
  with 2(2)[OF nn ns] show ?case by simp
qed

lemma replace_from_first:
  "old \<noteq> [] \<Longrightarrow> \<not> sublist old (a @ butlast old) \<Longrightarrow>
     replace_from old [] (a @ old @ b) = a @ replace_from old [] b"
proof (induction a)
  case Nil
  from Nil(1) obtain c cs where oc: "old @ b = c # cs"
    by (cases old) auto
  have p: "prefix old (c # cs)" using oc by (metis prefixI)
  with Nil(1) have "replace_from old [] (c # cs) =
      replace_from old [] (drop (length old) (c # cs))"
    by (simp add: replace_from.simps)
  with oc show ?case by (metis append_Nil append_eq_conv_conj)
next
  case (Cons x a)
  have np: "\<not> prefix old (x # a @ old @ b)"
  proof
    assume p: "prefix old (x # a @ old @ b)"
    have "prefix (butlast old) (old @ b)"
      by (metis prefix_order.order_trans prefixeq_butlast prefixI)
    then have q: "prefix (x # a @ butlast old) (x # a @ old @ b)" by simp
    from Cons(2) have "length old \<le> length (x # a @ butlast old)" by (cases old) simp_all
    with p q have "prefix old (x # a @ butlast old)"
      by (rule prefix_length_prefix)
    then have "sublist old ((x # a) @ butlast old)" by simp
    with Cons(3) show False by blast
  qed
  from Cons(3) have "\<not> sublist old (a @ butlast old)"
    by (simp add: sublist_Cons_right)
  with Cons(1)[OF Cons(2)] have ih: "replace_from old [] (a @ old @ b) = a @ replace_from old [] b"
    by simp
  from np have "replace_from old [] (x # a @ old @ b) = x # replace_from old [] (a @ old @ b)"
    by (auto simp: replace_from.simps)
  with ih show ?case by simp
qed

lemma removed_replace: "removed old s r \<Longrightarrow> old \<noteq> [] \<Longrightarrow> r = replace s old []"
proof (induction rule: removed.induct)
  case (none s)
  then show ?case by (simp add: replace_def replace_from_absent)
next
  case (first a b r)
  then show ?case by (simp add: replace_def replace_from_first)
qed

lemma cleaned_clean_response: "cleaned ucd reply r \<Longrightarrow> r = clean_response ucd reply"
proof -
  assume "cleaned ucd reply r"
  then obtain t1 t2 t3 where a: "stripped ucd reply t1"
    and b: "removed (fence @ ascii ''sql'') t1 t2"
    and c: "removed fence t2 t3" and d: "stripped ucd t3 r"
    unfolding cleaned_def by blast
  from a have t1: "t1 = strip ucd reply" by (rule stripped_strip)
  from b have t2: "t2 = replace t1 (fence @ ascii ''sql'') []"
    by (rule removed_replace) (simp add: fence_def)
  from c have t3: "t3 = replace t2 fence []"
    by (rule removed_replace) (simp add: fence_def)
  from d have "r = strip ucd t3" by (rule stripped_strip)
  with t1 t2 t3 show ?thesis by (simp add: clean_response_def)
qed

lemma cleaned_unique: "cleaned ucd reply r \<Longrightarrow> cleaned ucd reply r' \<Longrightarrow> r' = r"
  by (auto dest: cleaned_clean_response)

section \<open>\<open>generate_sql\<close>: its four paths\<close>

lemma generate_sql_unconfigured_eq:
  "\<not> is_configured self \<Longrightarrow>
     generate_sql ucd self api q log =
       (Ret (ascii ''Error: API Key no configurada. Verifica el archivo .env''), log)"
  by (simp add: generate_sql_def ret_def)

lemma generate_sql_raised:
  "is_configured self \<Longrightarrow>
   generate_content api (the (model self)) (create_sql_prompt self q) = Inl e \<Longrightarrow>
     fst (generate_sql ucd self api q log) = Ret (ascii ''Error: '' @ e)"
  by (simp add: generate_sql_def ret_def bind_def try_except_def call_def Let_def)

lemma generate_sql_invalid:
  "is_configured self \<Longrightarrow>
   generate_content api (the (model self)) (create_sql_prompt self q) = Inr reply \<Longrightarrow>
   \<not> validate_sql ucd (clean_response ucd reply) \<Longrightarrow>
     fst (generate_sql ucd self api q log) =
       Ret (ascii ''Error: Consulta SQL no v'' @ a_acute @ ascii ''lida generada: '' @ clean_response ucd reply)"
  by (simp add: generate_sql_def ret_def bind_def try_except_def call_def Let_def)

lemma generate_sql_valid:
  "is_configured self \<Longrightarrow>
   generate_content api (the (model self)) (create_sql_prompt self q) = Inr reply \<Longrightarrow>
   validate_sql ucd (clean_response ucd reply) \<Longrightarrow>
     fst (generate_sql ucd self api q log) = Ret (clean_response ucd reply)"
  by (simp add: generate_sql_def ret_def bind_def try_except_def call_def Let_def)

lemma generate_sql_not_ok:
  "\<not> generate_sql_ok ucd self api q \<Longrightarrow>
     \<exists>r. fst (generate_sql ucd self api q log) = Ret r \<and> prefix (ascii ''Error:'') r"
proof (cases "is_configured self")
  case False
  then show ?thesis by (simp add: generate_sql_unconfigured_eq ascii_simps)
next
  case True
  assume n: "\<not> generate_sql_ok ucd self api q"
  show ?thesis
  proof (cases "generate_content api (the (model self)) (create_sql_prompt self q)")
    case (Inl e)
    with True show ?thesis by (simp add: generate_sql_raised ascii_simps)
  next
    case (Inr reply)
    with True n have "\<not> validate_sql ucd (clean_response ucd reply)"
      by (simp add: generate_sql_ok_def)
    with True Inr show ?thesis by (simp add: generate_sql_invalid ascii_simps)
  qed
qed

lemma generate_sql_is_ok:
  "generate_sql_ok ucd self api q \<Longrightarrow>
     \<exists>reply. generate_content api (the (model self)) (create_sql_prompt self q) = Inr reply \<and>
       validate_sql ucd (clean_response ucd reply) \<and>
       fst (generate_sql ucd self api q log) = Ret (clean_response ucd reply)"
  by (auto simp: generate_sql_ok_def generate_sql_valid split: sum.splits)

lemma validate_sql_not_error: "validate_sql ucd s \<Longrightarrow> s \<noteq> [] \<and> \<not> prefix (ascii ''Error:'') s"
  by (auto simp: validate_sql_def split: if_splits)

section \<open>The example run of \<open>generate_sql\<close>\<close>

lemma clean_fenced_reply: "clean_response ucd fenced_reply = ascii ''SELECT * FROM authors''"
  by code_simp

lemma validate_example: "validate_sql ucd (ascii ''SELECT * FROM authors'')"
  by code_simp

lemma example_ok: "generate_sql_ok ucd example_generator example_genai (ascii ''Autores de California'')"
  by (simp add: generate_sql_ok_def example_generator_def example_genai_def is_configured_def
      clean_fenced_reply validate_example)

lemma example_run:
  "fst (generate_sql ucd example_generator example_genai (ascii ''Autores de California'') []) =
     Ret (ascii ''SELECT * FROM authors'')"
  using generate_sql_is_ok[OF example_ok, of ucd "[]"]
  by (simp add: example_genai_def clean_fenced_reply)

lemma ascii_upper_single: "c < 128 \<Longrightarrow> length (upper_char ucd c) = 1"
  by (simp add: upper_char_def)

lemma ci_substring_sublists:
  "ci_substring ucd kw s \<longleftrightarrow> list_ex (\<lambda>u. upper ucd u = upper ucd kw) (sublists s)"
proof
  assume "ci_substring ucd kw s"
  then obtain ps u ss where "s = ps @ u @ ss" and u: "upper ucd u = upper ucd kw"
    unfolding ci_substring_def by blast
  then have "sublist u s" by (simp add: sublist_def) blast
  with u show "list_ex (\<lambda>u. upper ucd u = upper ucd kw) (sublists s)"
    unfolding list_ex_iff by (metis in_set_sublists)
next
  assume "list_ex (\<lambda>u. upper ucd u = upper ucd kw) (sublists s)"
  then obtain u where "sublist u s" and u: "upper ucd u = upper ucd kw"
    unfolding list_ex_iff by (metis in_set_sublists)
  then obtain ps ss where "s = ps @ u @ ss" unfolding sublist_def by blast
  with u show "ci_substring ucd kw s" unfolding ci_substring_def by blast
qed

lemma clean_sharp_s_reply: "clean_response ucd_sample sharp_s_reply = sharp_s_reply"
  by code_simp

lemma validate_sharp_s_reply: "validate_sql ucd_sample sharp_s_reply"
  by code_simp

lemma sharp_s_no_select: "\<not> ci_substring ucd_sample (ascii ''SELECT'') sharp_s_reply"
  unfolding ci_substring_sublists by code_simp

lemma sharp_s_run:
  "fst (generate_sql ucd_sample example_generator sharp_s_genai q log) = Ret sharp_s_reply"
proof -
  have c: "is_configured example_generator"
    by (simp add: is_configured_def example_generator_def)
  have g: "generate_content sharp_s_genai (the (model example_generator))
             (create_sql_prompt example_generator q) = Inr sharp_s_reply"
    by (simp add: sharp_s_genai_def)
  from generate_sql_valid[OF c g, of ucd_sample log] show ?thesis
    by (simp add: clean_sharp_s_reply validate_sharp_s_reply)
qed

lemma sharp_s_not_error: "\<not> prefix (ascii ''Error:'') sharp_s_reply"
  using validate_sql_not_error[OF validate_sharp_s_reply] by simp

section \<open>Properties of the SQL generator\<close>

text \<open>
  C1, as stated, fails: \<open>str.upper()\<close> turns the sharp s U+00DF into \<open>SS\<close>, so the
  reply U+00DF\<open>elect 1 from t\<close> has \<open>SELECT\<close> in its upper-cased form and is returned as a
  success, though no run of its characters equals \<open>SELECT\<close> up to case.
\<close>

theorem generate_sql_sharp_s_counterexample:
  "fst (generate_sql ucd_sample example_generator sharp_s_genai
          (ascii ''Autores de California'') []) = Ret sharp_s_reply \<and>
   \<not> prefix (ascii ''Error:'') sharp_s_reply \<and>
   \<not> ci_substring ucd_sample (ascii ''SELECT'') sharp_s_reply"
  by (simp add: sharp_s_run sharp_s_not_error sharp_s_no_select)

text \<open>
  C1, amended. For every question, \<open>generate_sql\<close> returns a string that either begins
  with \<open>Error:\<close>, or is not empty and has both \<open>SELECT\<close> and \<open>FROM\<close> in its upper-cased
  form (\<open>str.upper()\<close>), so that both occur in it as case-insensitive substrings whenever
  each of its characters is upper-cased to a single character, as all of ASCII is. Such a
  string is the provider's reply cleaned, and nothing else is: whitespace stripped at both
  ends, the fences with the \<open>sql\<close> tag and then the other fences taken out, whitespace
  stripped again. It has no whitespace left at either end and contains no code fence. In
  particular the empty string is never returned as a success.
\<close>

theorem generate_sql_result:
  "\<exists>r. fst (generate_sql ucd self api q log) = Ret r \<and>
     (prefix (ascii ''Error:'') r \<or>
      (r \<noteq> [] \<and>
       sublist (ascii ''SELECT'') (upper ucd r) \<and> sublist (ascii ''FROM'') (upper ucd r) \<and>
       (list_all (\<lambda>c. length (upper_char ucd c) = 1) r \<longrightarrow>
          ci_substring ucd (ascii ''SELECT'') r \<and> ci_substring ucd (ascii ''FROM'') r) \<and>
       (\<exists>reply. generate_content api (the (model self)) (create_sql_prompt self q) = Inr reply \<and>
          cleaned ucd reply r \<and> (\<forall>r'. cleaned ucd reply r' \<longrightarrow> r' = r)) \<and>
       strip ucd r = r \<and> \<not> is_space ucd (hd r) \<and> \<not> is_space ucd (last r) \<and>
       \<not> sublist fence r \<and> \<not> sublist (fence @ ascii ''sql'') r))"
proof (cases "generate_sql_ok ucd self api q")
  case False
  then show ?thesis using generate_sql_not_ok[of ucd self api q log] by blast
next
  case True
  then obtain reply
    where g: "generate_content api (the (model self)) (create_sql_prompt self q) = Inr reply"
    and v: "validate_sql ucd (clean_response ucd reply)"
    and r: "fst (generate_sql ucd self api q log) = Ret (clean_response ucd reply)"
    using generate_sql_is_ok[of ucd self api q log] by blast
  let ?r = "clean_response ucd reply"
  from v have ne: "?r \<noteq> []" by (simp add: validate_sql_not_error)
  from v have kw: "sublist (ascii ''SELECT'') (upper ucd ?r) \<and> sublist (ascii ''FROM'') (upper ucd ?r)"
    by (simp add: validate_sql_iff)
  have ci: "list_all (\<lambda>c. length (upper_char ucd c) = 1) ?r \<longrightarrow>
          ci_substring ucd (ascii ''SELECT'') ?r \<and> ci_substring ucd (ascii ''FROM'') ?r"
    using kw upper_sublist_ci[of ucd ?r "ascii ''SELECT''"] upper_sublist_ci[of ucd ?r "ascii ''FROM''"]
    by (simp add: upper_SELECT upper_FROM)
  have cl: "cleaned ucd reply ?r \<and> (\<forall>r'. cleaned ucd reply r' \<longrightarrow> r' = ?r)"
    using clean_response_cleaned[of ucd reply] cleaned_clean_response[of ucd reply] by blast
  have st: "strip ucd ?r = ?r" by (rule clean_response_strip)
  from ne st have sp: "\<not> is_space ucd (hd ?r) \<and> \<not> is_space ucd (last ?r)"
    using strip_hd[of ucd ?r] strip_last[of ucd ?r] by simp
  from g r ne kw ci cl st sp clean_response_no_fence[of ucd reply]
    clean_response_no_fence_sql[of ucd reply]
  show ?thesis by blast
qed

lemma example_reply: "generate_content example_genai m p = Inr fenced_reply"
  by (simp add: example_genai_def)

lemma example_single: "list_all (\<lambda>c. length (upper_char ucd c) = 1) (ascii ''SELECT * FROM authors'')"
  by code_simp

lemma example_not_error: "\<not> prefix (ascii ''Error:'') (ascii ''SELECT * FROM authors'')"
  by code_simp

theorem generate_sql_result_witness:
  "fst (generate_sql ucd_sample example_generator example_genai (ascii ''Autores de California'') []) =
     Ret (ascii ''SELECT * FROM authors'') \<and>
   \<not> prefix (ascii ''Error:'') (ascii ''SELECT * FROM authors'') \<and>
   list_all (\<lambda>c. length (upper_char ucd_sample c) = 1) (ascii ''SELECT * FROM authors'') \<and>
   ci_substring ucd_sample (ascii ''SELECT'') (ascii ''SELECT * FROM authors'') \<and>
   ci_substring ucd_sample (ascii ''FROM'') (ascii ''SELECT * FROM authors'') \<and>
   cleaned ucd_sample fenced_reply (ascii ''SELECT * FROM authors'') \<and>
   \<not> sublist fence (ascii ''SELECT * FROM authors'')"
proof -
  let ?x = "ascii ''SELECT * FROM authors''"
  have run: "fst (generate_sql ucd_sample example_generator example_genai
                    (ascii ''Autores de California'') []) = Ret ?x"
    by (rule example_run)
  have ne: "\<not> prefix (ascii ''Error:'') ?x" by (rule example_not_error)
  have one: "list_all (\<lambda>c. length (upper_char ucd_sample c) = 1) ?x" by (rule example_single)
  from generate_sql_result[of ucd_sample example_generator example_genai
      "ascii ''Autores de California''" "[]"]
  obtain r where r: "fst (generate_sql ucd_sample example_generator example_genai
                            (ascii ''Autores de California'') []) = Ret r"
    and d: "prefix (ascii ''Error:'') r \<or>
      (r \<noteq> [] \<and>
       sublist (ascii ''SELECT'') (upper ucd_sample r) \<and> sublist (ascii ''FROM'') (upper ucd_sample r) \<and>
       (list_all (\<lambda>c. length (upper_char ucd_sample c) = 1) r \<longrightarrow>
          ci_substring ucd_sample (ascii ''SELECT'') r \<and> ci_substring ucd_sample (ascii ''FROM'') r) \<and>
       (\<exists>reply. generate_content example_genai (the (model example_generator))
                   (create_sql_prompt example_generator (ascii ''Autores de California'')) = Inr reply \<and>
          cleaned ucd_sample reply r \<and> (\<forall>r'. cleaned ucd_sample reply r' \<longrightarrow> r' = r)) \<and>
       strip ucd_sample r = r \<and> \<not> is_space ucd_sample (hd r) \<and> \<not> is_space ucd_sample (last r) \<and>
       \<not> sublist fence r \<and> \<not> sublist (fence @ ascii ''sql'') r)"
    by blast
  from r run have rx: "r = ?x" by simp
  from d ne one have ci: "ci_substring ucd_sample (ascii ''SELECT'') ?x \<and>
      ci_substring ucd_sample (ascii ''FROM'') ?x"
    unfolding rx by blast
  from d ne have "\<exists>reply. generate_content example_genai (the (model example_generator))
                   (create_sql_prompt example_generator (ascii ''Autores de California'')) = Inr reply \<and>
          cleaned ucd_sample reply ?x"
    unfolding rx by blast
  then have cl: "cleaned ucd_sample fenced_reply ?x"
    by (simp add: example_reply)
  from d ne have nf: "\<not> sublist fence ?x"
    unfolding rx by blast
  from run ne one ci cl nf show ?thesis by blast
qed

text \<open>
  C3. When the generator is not configured (no model or no API key), \<open>generate_sql\<close>
  returns the sentinel \<open>Error: API Key no configurada. Verifica el archivo .env\<close> for every
  question, and the log of external calls is left as it was: no request goes to the provider.
\<close>

theorem generate_sql_unconfigured:
  "\<not> is_configured self \<Longrightarrow>
     generate_sql ucd self api q log =
       (Ret (ascii ''Error: API Key no configurada. Verifica el archivo .env''), log)"
  by (rule generate_sql_unconfigured_eq)

theorem generate_sql_unconfigured_witness:
  "\<not> is_configured unconfigured_generator \<and>
   generate_sql ucd_sample unconfigured_generator example_genai (ascii ''Autores de California'') [] =
     (Ret (ascii ''Error: API Key no configurada. Verifica el archivo .env''), [])"
proof -
  have h: "\<not> is_configured unconfigured_generator"
    by (simp add: is_configured_def unconfigured_generator_def)
  show ?thesis
    using h generate_sql_unconfigured[OF h, of ucd_sample example_genai
        "ascii ''Autores de California''" "[]"]
    by simp
qed

text \<open>
  C10. The string that \<open>generate_sql\<close> returns begins with \<open>Error:\<close> exactly when the call
  failed, and the caller's test (not empty and not beginning with \<open>Error:\<close>) holds exactly
  when the call succeeded; the validator rejects every string that begins with \<open>Error:\<close>.
\<close>

theorem error_prefix_iff_failure:
  "\<exists>r. fst (generate_sql ucd self api q log) = Ret r \<and>
     (prefix (ascii ''Error:'') r \<longleftrightarrow> \<not> generate_sql_ok ucd self api q) \<and>
     (caller_accepts r \<longleftrightarrow> generate_sql_ok ucd self api q) \<and>
     (prefix (ascii ''Error:'') s \<longrightarrow> \<not> validate_sql ucd s)"
proof (cases "generate_sql_ok ucd self api q")
  case False
  then obtain r where "fst (generate_sql ucd self api q log) = Ret r" "prefix (ascii ''Error:'') r"
    using generate_sql_not_ok[of ucd self api q log] by blast
  with False show ?thesis
    using validate_sql_not_error[of ucd s] by (auto simp: caller_accepts_def)
next
  case True
  then obtain reply where v: "validate_sql ucd (clean_response ucd reply)"
    and r: "fst (generate_sql ucd self api q log) = Ret (clean_response ucd reply)"
    using generate_sql_is_ok[of ucd self api q log] by blast
  from v have "clean_response ucd reply \<noteq> [] \<and> \<not> prefix (ascii ''Error:'') (clean_response ucd reply)"
    by (rule validate_sql_not_error)
  with True r show ?thesis
    using validate_sql_not_error[of ucd s] by (auto simp: caller_accepts_def)
qed

lemma error_select_not_valid: "\<not> validate_sql ucd (ascii ''Error: SELECT 1 FROM t'')"
  by code_simp

lemma error_select_prefix: "prefix (ascii ''Error:'') (ascii ''Error: SELECT 1 FROM t'')"
  by code_simp

theorem error_prefix_iff_failure_witness:
  "fst (generate_sql ucd_sample example_generator example_genai (ascii ''Autores de California'') []) =
     Ret (ascii ''SELECT * FROM authors'') \<and>
   generate_sql_ok ucd_sample example_generator example_genai (ascii ''Autores de California'') \<and>
   caller_accepts (ascii ''SELECT * FROM authors'') \<and>
   prefix (ascii ''Error:'') (ascii ''Error: SELECT 1 FROM t'') \<and>
   \<not> validate_sql ucd_sample (ascii ''Error: SELECT 1 FROM t'')"
  using error_prefix_iff_failure[of ucd_sample example_generator example_genai
      "ascii ''Autores de California''" "[]" "ascii ''Error: SELECT 1 FROM t''"]
  by (simp add: example_run example_ok error_select_prefix)

section \<open>Properties of the validator\<close>

lemma drop_not_valid: "\<not> validate_sql ucd (ascii ''DROP TABLE authors'')"
  by code_simp

lemma select_drop_valid: "validate_sql ucd (ascii ''SELECT * FROM authors; DROP TABLE authors'')"
  by code_simp

lemma error_select_keywords:
  "ci_substring ucd (ascii ''SELECT'') (ascii ''Error: SELECT 1 FROM t'') \<and>
   ci_substring ucd (ascii ''FROM'') (ascii ''Error: SELECT 1 FROM t'')"
proof -
  have a: "ascii ''Error: SELECT 1 FROM t'' =
      ascii ''Error: '' @ ascii ''SELECT'' @ ascii '' 1 FROM t''"
    by (simp add: ascii_def)
  have b: "ascii ''Error: SELECT 1 FROM t'' =
      ascii ''Error: SELECT 1 '' @ ascii ''FROM'' @ ascii '' t''"
    by (simp add: ascii_def)
  from a b show ?thesis unfolding ci_substring_def by blast
qed

lemma clean_drop: "clean_response ucd (ascii ''DROP TABLE authors'') = ascii ''DROP TABLE authors''"
  by code_simp

text \<open>
  C2, as stated, fails in both directions. \<open>Error: SELECT 1 FROM t\<close> contains both
  keywords and is rejected, because \<open>_validate_sql\<close> first refuses every string that begins
  with \<open>Error:\<close>. U+00DF\<open>elect 1 from t\<close> is accepted, because \<open>str.upper()\<close> turns the
  sharp s into \<open>SS\<close>, though no run of its characters equals \<open>SELECT\<close> up to case.
\<close>

theorem validate_sql_keywords_counterexample:
  "\<not> (validate_sql ucd_sample (ascii ''Error: SELECT 1 FROM t'') \<longleftrightarrow>
       ci_substring ucd_sample (ascii ''SELECT'') (ascii ''Error: SELECT 1 FROM t'') \<and>
       ci_substring ucd_sample (ascii ''FROM'') (ascii ''Error: SELECT 1 FROM t'')) \<and>
   \<not> (validate_sql ucd_sample sharp_s_reply \<longleftrightarrow>
       ci_substring ucd_sample (ascii ''SELECT'') sharp_s_reply \<and>
       ci_substring ucd_sample (ascii ''FROM'') sharp_s_reply)"
  using error_select_keywords[of ucd_sample]
  by (simp add: error_select_not_valid validate_sharp_s_reply sharp_s_no_select)

text \<open>
  C2, amended. The validator accepts a string if and only if the string does not begin with
  \<open>Error:\<close> and both \<open>SELECT\<close> and \<open>FROM\<close> occur in its upper-cased form (\<open>str.upper()\<close>);
  for a string each of whose characters is upper-cased to a single character, as all of
  ASCII is, that is: it does not begin with \<open>Error:\<close> and both occur in it as
  case-insensitive substrings. \<open>DROP TABLE authors\<close> is rejected, and a provider's reply
  of that text makes \<open>generate_sql\<close> return the invalid-SQL error carrying it;
  \<open>SELECT * FROM authors; DROP TABLE authors\<close> is accepted.
\<close>

theorem validate_sql_accepts:
  "(validate_sql ucd s \<longleftrightarrow>
      \<not> prefix (ascii ''Error:'') s \<and> sublist (ascii ''SELECT'') (upper ucd s) \<and>
      sublist (ascii ''FROM'') (upper ucd s)) \<and>
   (list_all (\<lambda>c. length (upper_char ucd c) = 1) s \<longrightarrow>
      (validate_sql ucd s \<longleftrightarrow>
         \<not> prefix (ascii ''Error:'') s \<and> ci_substring ucd (ascii ''SELECT'') s \<and>
         ci_substring ucd (ascii ''FROM'') s)) \<and>
   \<not> validate_sql ucd (ascii ''DROP TABLE authors'') \<and>
   fst (generate_sql ucd example_generator drop_genai q log) =
     Ret (ascii ''Error: Consulta SQL no v'' @ a_acute @ ascii ''lida generada: DROP TABLE authors'') \<and>
   validate_sql ucd (ascii ''SELECT * FROM authors; DROP TABLE authors'')"
proof -
  have c: "is_configured example_generator"
    by (simp add: is_configured_def example_generator_def)
  have g: "generate_content drop_genai (the (model example_generator))
             (create_sql_prompt example_generator q) = Inr (ascii ''DROP TABLE authors'')"
    by (simp add: drop_genai_def)
  have "fst (generate_sql ucd example_generator drop_genai q log) =
     Ret (ascii ''Error: Consulta SQL no v'' @ a_acute @ ascii ''lida generada: '' @
          clean_response ucd (ascii ''DROP TABLE authors''))"
    using c g by (rule generate_sql_invalid) (simp add: clean_drop drop_not_valid)
  moreover have "ascii ''lida generada: DROP TABLE authors'' =
      ascii ''lida generada: '' @ ascii ''DROP TABLE authors''"
    by (simp add: ascii_def)
  ultimately have e: "fst (generate_sql ucd example_generator drop_genai q log) =
     Ret (ascii ''Error: Consulta SQL no v'' @ a_acute @ ascii ''lida generada: DROP TABLE authors'')"
    by (simp only: clean_drop)
  have i: "list_all (\<lambda>c. length (upper_char ucd c) = 1) s \<longrightarrow>
      (validate_sql ucd s \<longleftrightarrow>
         \<not> prefix (ascii ''Error:'') s \<and> ci_substring ucd (ascii ''SELECT'') s \<and>
         ci_substring ucd (ascii ''FROM'') s)"
    using upper_sublist_ci[of ucd s "ascii ''SELECT''"] upper_sublist_ci[of ucd s "ascii ''FROM''"]
      ci_substring_upper[of ucd "ascii ''SELECT''" s] ci_substring_upper[of ucd "ascii ''FROM''" s]
    by (auto simp: validate_sql_iff upper_SELECT upper_FROM)
  from e i validate_sql_iff[of ucd s] drop_not_valid[of ucd] select_drop_valid[of ucd]
  show ?thesis by blast
qed

lemma lower_single:
  "list_all (\<lambda>c. length (upper_char ucd c) = 1) (ascii ''select au_lname from authors'')"
  by code_simp

lemma lower_valid: "validate_sql ucd (ascii ''select au_lname from authors'')"
  by code_simp

theorem validate_sql_accepts_witness:
  "list_all (\<lambda>c. length (upper_char ucd_sample c) = 1) (ascii ''select au_lname from authors'') \<and>
   validate_sql ucd_sample (ascii ''select au_lname from authors'') \<and>
   \<not> prefix (ascii ''Error:'') (ascii ''select au_lname from authors'') \<and>
   ci_substring ucd_sample (ascii ''SELECT'') (ascii ''select au_lname from authors'') \<and>
   ci_substring ucd_sample (ascii ''FROM'') (ascii ''select au_lname from authors'')"
  using validate_sql_accepts[of ucd_sample "ascii ''select au_lname from authors''" "[]" "[]"]
    lower_single[of ucd_sample] lower_valid[of ucd_sample]
  by blast

section \<open>Properties of the database client\<close>

lemma execute_query_unconfigured_eq:
  "\<not> db_is_configured self \<Longrightarrow>
     execute_query self drv sql_query log =
       (Ret None, log @ [StError (cross_mark @ ascii '' Cadena de conexi'' @ o_acute @
                   ascii ''n no configurada. Verifica el archivo .env'')])"
  by (simp add: execute_query_def bind_def display_def ret_def)

text \<open>
  C4. With no connection string (\<open>None\<close> or the empty string), \<open>execute_query\<close> returns
  \<open>None\<close> for every statement, and the only event it adds to the log is the error shown
  to the user: the driver is not asked for a connection.
\<close>

theorem execute_query_unconfigured:
  "connection_string self = None \<or> connection_string self = Some [] \<Longrightarrow>
     execute_query self drv sql_query log =
       (Ret None, log @ [StError (cross_mark @ ascii '' Cadena de conexi'' @ o_acute @
                   ascii ''n no configurada. Verifica el archivo .env'')])"
proof -
  assume "connection_string self = None \<or> connection_string self = Some []"
  then have "\<not> db_is_configured self"
    by (auto simp: db_is_configured_def)
  then show ?thesis by (rule execute_query_unconfigured_eq)
qed

theorem execute_query_unconfigured_witness:
  "execute_query \<lparr>connection_string = None\<rparr> failing_driver (ascii ''SELECT 1 FROM t'') [] =
     (Ret None, [StError (cross_mark @ ascii '' Cadena de conexi'' @ o_acute @
                   ascii ''n no configurada. Verifica el archivo .env'')]) \<and>
   execute_query \<lparr>connection_string = Some []\<rparr> failing_driver (ascii ''SELECT 1 FROM t'') [] =
     (Ret None, [StError (cross_mark @ ascii '' Cadena de conexi'' @ o_acute @
                   ascii ''n no configurada. Verifica el archivo .env'')])"
  using execute_query_unconfigured[of "\<lparr>connection_string = None\<rparr>" failing_driver
      "ascii ''SELECT 1 FROM t''" "[]"]
    execute_query_unconfigured[of "\<lparr>connection_string = Some []\<rparr>" failing_driver
      "ascii ''SELECT 1 FROM t''" "[]"]
  by simp

text \<open>
  C5 does not hold of the code: \<open>conn.close()\<close> stands inside the \<open>try\<close> block after
  \<open>pd.read_sql_query\<close>, and the handler does not close. When the driver connects and the
  statement is rejected, \<open>execute_query\<close> returns \<open>None\<close> and the log holds the connection
  and the query, but no closing of the connection.
\<close>

theorem execute_query_error_leaves_connection_open:
  "execute_query pubs_client failing_driver (ascii ''SELEC 1'') [] =
     (Ret None,
      [PyodbcConnect (ascii ''DSN=pubs''), ReadSqlQuery (ascii ''SELEC 1'') 7,
       StError (cross_mark @ ascii '' Error ejecutando consulta: Incorrect syntax near SELEC'')]) \<and>
   ConnClose 7 \<notin> set (snd (execute_query pubs_client failing_driver (ascii ''SELEC 1'') []))"
  by (simp add: execute_query_def db_is_configured_def pubs_client_def failing_driver_def
      bind_def display_def ret_def try_except_def call_def ascii_simps)

section \<open>Configuration and the paths of \<open>execute_query\<close>\<close>

lemmas io_defs = bind_def display_def ret_def try_except_def call_def

lemma find_available_find: "find_available p available = List.find (sublist p) available"
  by (induction available) auto

lemma find_preferred_filter:
  "find_preferred ps available =
     (case filter (\<lambda>p. \<exists>a \<in> set available. sublist p a) ps of
        [] \<Rightarrow> None
      | p # _ \<Rightarrow> List.find (sublist p) available)"
proof (induction ps)
  case Nil
  show ?case by simp
next
  case (Cons p ps)
  show ?case
  proof (cases "\<exists>a \<in> set available. sublist p a")
    case True
    then have "List.find (sublist p) available \<noteq> None"
      by (auto simp: find_None_iff)
    with True show ?thesis
      by (auto simp: find_available_find)
  next
    case False
    then have "List.find (sublist p) available = None"
      by (simp add: find_None_iff)
    with False Cons show ?thesis
      by (simp add: find_available_find)
  qed
qed

lemma get_compatible_model_returns:
  "fst (get_compatible_model api log) =
     Ret (case list_models api of Inl e \<Rightarrow> None | Inr names \<Rightarrow> select_model names)"
proof (cases "list_models api")
  case (Inl e)
  then show ?thesis
    by (simp add: get_compatible_model_def io_defs)
next
  case (Inr names)
  show ?thesis
  proof (cases "find_preferred preferred_models names")
    case (Some available)
    with Inr show ?thesis
      by (simp add: get_compatible_model_def select_model_def io_defs)
  next
    case None
    show ?thesis
    proof (cases names)
      case Nil
      with Inr None show ?thesis
        by (simp add: get_compatible_model_def select_model_def io_defs)
    next
      case (Cons first rest)
      with Inr None show ?thesis
        by (simp add: get_compatible_model_def select_model_def io_defs)
    qed
  qed
qed

lemma set_api_key_returns:
  "fst (set_api_key self api key log) =
     Ret (case configure api key of
            Inl e \<Rightarrow> (False, self\<lparr>api_key := Some key\<rparr>)
          | Inr u \<Rightarrow>
              (True, self\<lparr>api_key := Some key,
                 model := (case list_models api of
                             Inl e \<Rightarrow> None | Inr names \<Rightarrow> select_model names)\<rparr>))"
proof (cases "configure api key")
  case (Inl e)
  then show ?thesis
    by (simp add: set_api_key_def io_defs)
next
  case (Inr u)
  obtain r log' where g: "get_compatible_model api (log @ [GenaiConfigure key]) = (r, log')"
    by (cases "get_compatible_model api (log @ [GenaiConfigure key])")
  with get_compatible_model_returns[of api "log @ [GenaiConfigure key]"]
  have r: "r = Ret (case list_models api of Inl e \<Rightarrow> None | Inr names \<Rightarrow> select_model names)"
    by simp
  show ?thesis
  proof (cases "case list_models api of Inl e \<Rightarrow> None | Inr names \<Rightarrow> select_model names")
    case None
    with Inr g r show ?thesis
      by (simp add: set_api_key_def io_defs)
  next
    case (Some m)
    with Inr g r show ?thesis
      by (simp add: set_api_key_def io_defs)
  qed
qed

lemma execute_query_success:
  "connection_string self = Some cs \<Longrightarrow> cs \<noteq> [] \<Longrightarrow> connect drv cs = Inr conn \<Longrightarrow>
   read_sql_query drv sql_query conn = Inr df \<Longrightarrow> close drv conn = Inr u \<Longrightarrow>
     execute_query self drv sql_query log =
       (Ret (Some df),
        log @ [PyodbcConnect cs, ReadSqlQuery sql_query conn, ConnClose conn,
               StSuccess (check_mark @ ascii '' Consulta ejecutada: '' @
                          str_nat (length (snd df)) @ ascii '' filas obtenidas'')])"
  by (simp add: execute_query_def db_is_configured_def io_defs)

lemma execute_query_failure:
  "\<not> execute_query_ok self drv sql_query \<Longrightarrow>
     fst (execute_query self drv sql_query log) = Ret None"
proof (cases "db_is_configured self")
  case False
  then show ?thesis by (simp add: execute_query_unconfigured_eq)
next
  case True
  assume n: "\<not> execute_query_ok self drv sql_query"
  from True obtain cs where cs: "connection_string self = Some cs"
    by (auto simp: db_is_configured_def split: option.splits)
  show ?thesis
  proof (cases "connect drv cs")
    case (Inl e)
    with True cs show ?thesis by (simp add: execute_query_def io_defs)
  next
    case conn: (Inr conn)
    show ?thesis
    proof (cases "read_sql_query drv sql_query conn")
      case (Inl e)
      with True cs conn show ?thesis by (simp add: execute_query_def io_defs)
    next
      case df: (Inr df)
      show ?thesis
      proof (cases "close drv conn")
        case (Inl e)
        with True cs conn df show ?thesis by (simp add: execute_query_def io_defs)
      next
        case (Inr u)
        with True cs conn df n show ?thesis by (simp add: execute_query_ok_def)
      qed
    qed
  qed
qed

lemma execute_query_returns:
  "\<exists>t. fst (execute_query self drv sql_query log) = Ret t"
proof (cases "execute_query_ok self drv sql_query")
  case False
  then show ?thesis by (simp add: execute_query_failure)
next
  case True
  then obtain cs where cs: "connection_string self = Some cs" "cs \<noteq> []"
    by (auto simp: execute_query_ok_def db_is_configured_def split: option.splits)
  with True obtain conn where conn: "connect drv cs = Inr conn"
    by (auto simp: execute_query_ok_def split: sum.splits)
  with True cs obtain df where df: "read_sql_query drv sql_query conn = Inr df"
    by (auto simp: execute_query_ok_def split: sum.splits)
  with True cs conn obtain u where "close drv conn = Inr u"
    by (auto simp: execute_query_ok_def split: sum.splits)
  with cs conn df show ?thesis
    by (simp add: execute_query_success)
qed

section \<open>Failures are returned, not raised\<close>

text \<open>
  C6, as stated, fails for \<open>set_api_key\<close>: when listing the models raises,
  \<open>_get_compatible_model\<close> catches the exception and returns \<open>None\<close>, and \<open>set_api_key\<close>
  shows that the model could not be initialised and then returns \<open>True\<close>, with the
  generator left unconfigured. \<open>False\<close> is returned only from the handler of its own
  \<open>try\<close> block.
\<close>

theorem set_api_key_failure_counterexample:
  "fst (set_api_key unconfigured_generator no_models_genai (ascii ''key'') []) =
     Ret (True, \<lparr>model = None, api_key = Some (ascii ''key''), pubs_schema = []\<rparr>) \<and>
   \<not> is_configured \<lparr>model = None, api_key = Some (ascii ''key''), pubs_schema = []\<rparr> \<and>
   snd (set_api_key unconfigured_generator no_models_genai (ascii ''key'') []) =
     [GenaiConfigure (ascii ''key''), GenaiListModels,
      StSidebarError (ascii ''Error detectando modelos: 403 API key not valid''),
      StSidebarError (cross_mark @ ascii '' No se pudo inicializar el modelo Gemini'')]"
  by (simp add: set_api_key_def get_compatible_model_def unconfigured_generator_def
      no_models_genai_def is_configured_def io_defs ascii_simps)

text \<open>
  C6, amended. No call raises: \<open>generate_sql\<close> returns a string, which begins with
  \<open>Error:\<close> whenever the call failed; \<open>execute_query\<close> returns, with \<open>None\<close> whenever the
  call failed; \<open>set_api_key\<close> returns a truth value and the generator, \<open>False\<close> when
  \<open>genai.configure\<close> raised and \<open>True\<close> otherwise, the model being then the one selected
  from the listed names, or none when listing raised or nothing could be selected.
\<close>

theorem failures_are_returned:
  "(\<exists>r. fst (generate_sql ucd self api q log) = Ret r \<and>
         (\<not> generate_sql_ok ucd self api q \<longrightarrow> prefix (ascii ''Error:'') r)) \<and>
   (\<exists>b self'. fst (set_api_key self api key log) = Ret (b, self') \<and>
         (case configure api key of
            Inl e \<Rightarrow> \<not> b
          | Inr u \<Rightarrow> b \<and> model self' =
              (case list_models api of Inl e \<Rightarrow> None | Inr names \<Rightarrow> select_model names))) \<and>
   (\<exists>t. fst (execute_query db drv sql_query log) = Ret t \<and>
         (\<not> execute_query_ok db drv sql_query \<longrightarrow> t = None))"
proof -
  have a: "\<exists>r. fst (generate_sql ucd self api q log) = Ret r \<and>
         (\<not> generate_sql_ok ucd self api q \<longrightarrow> prefix (ascii ''Error:'') r)"
  proof (cases "generate_sql_ok ucd self api q")
    case True
    then show ?thesis using generate_sql_is_ok[of ucd self api q log] by auto
  next
    case False
    then show ?thesis using generate_sql_not_ok[of ucd self api q log] by auto
  qed
  have b: "\<exists>b self'. fst (set_api_key self api key log) = Ret (b, self') \<and>
         (case configure api key of
            Inl e \<Rightarrow> \<not> b
          | Inr u \<Rightarrow> b \<and> model self' =
              (case list_models api of Inl e \<Rightarrow> None | Inr names \<Rightarrow> select_model names))"
    by (cases "configure api key") (auto simp: set_api_key_returns)
  have c: "\<exists>t. fst (execute_query db drv sql_query log) = Ret t \<and>
         (\<not> execute_query_ok db drv sql_query \<longrightarrow> t = None)"
  proof (cases "execute_query_ok db drv sql_query")
    case True
    then show ?thesis using execute_query_returns[of db drv sql_query log] by simp
  next
    case False
    then show ?thesis by (simp add: execute_query_failure)
  qed
  from a b c show ?thesis by blast
qed

theorem failures_are_returned_witness:
  "\<not> generate_sql_ok ucd_sample unconfigured_generator broken_genai (ascii ''Autores de California'') \<and>
   (\<exists>r. fst (generate_sql ucd_sample unconfigured_generator broken_genai (ascii ''Autores de California'') []) = Ret r \<and>
        prefix (ascii ''Error:'') r) \<and>
   (\<exists>self'. fst (set_api_key unconfigured_generator broken_genai (ascii ''key'') []) = Ret (False, self')) \<and>
   \<not> execute_query_ok pubs_client failing_driver (ascii ''SELEC 1'') \<and>
   fst (execute_query pubs_client failing_driver (ascii ''SELEC 1'') []) = Ret None"
proof -
  have g: "\<not> generate_sql_ok ucd_sample unconfigured_generator broken_genai (ascii ''Autores de California'')"
    by (simp add: generate_sql_ok_def is_configured_def unconfigured_generator_def)
  have k: "configure broken_genai (ascii ''key'') = Inl (ascii ''invalid credentials'')"
    by (simp add: broken_genai_def)
  have e: "\<not> execute_query_ok pubs_client failing_driver (ascii ''SELEC 1'')"
    by (simp add: execute_query_ok_def pubs_client_def failing_driver_def)
  show ?thesis
    using g k e
      failures_are_returned[of ucd_sample unconfigured_generator broken_genai "ascii ''Autores de California''"
        "[]" "ascii ''key''" pubs_client failing_driver "ascii ''SELEC 1''"]
    by auto
qed

section \<open>Model selection\<close>

text \<open>
  C7. As a function of the available names, the selection takes the first entry of the
  preference list, in its order, that is contained in some available name, and returns
  the first available name that contains it; when no entry is contained in any name it
  returns the first available name; on the empty list it returns nothing.
  \<open>_get_compatible_model\<close> returns that selection of the listed names, and when the
  list is empty \<open>set_api_key\<close> leaves the generator without a model, not configured.
\<close>

theorem model_selection:
  "select_model available_models =
     (case filter (\<lambda>p. \<exists>a \<in> set available_models. sublist p a)
             [ascii ''gemini-1.5-pro'', ascii ''gemini-1.5-flash'', ascii ''gemini-1.0-pro'', ascii ''gemini-pro''] of
        p # _ \<Rightarrow> List.find (sublist p) available_models
      | [] \<Rightarrow> (case available_models of [] \<Rightarrow> None | first # _ \<Rightarrow> Some first)) \<and>
   select_model [] = None \<and>
   fst (get_compatible_model api log) =
     Ret (case list_models api of Inl e \<Rightarrow> None | Inr names \<Rightarrow> select_model names) \<and>
   (configure api key = Inr () \<and> list_models api = Inr [] \<longrightarrow>
      (\<exists>self'. fst (set_api_key self api key log) = Ret (True, self') \<and>
         model self' = None \<and> \<not> is_configured self'))"
proof -
  have a: "select_model available_models =
     (case filter (\<lambda>p. \<exists>a \<in> set available_models. sublist p a) preferred_models of
        p # _ \<Rightarrow> List.find (sublist p) available_models
      | [] \<Rightarrow> (case available_models of [] \<Rightarrow> None | first # _ \<Rightarrow> Some first))"
  proof (cases "filter (\<lambda>p. \<exists>a \<in> set available_models. sublist p a) preferred_models")
    case Nil
    then show ?thesis
      by (simp add: select_model_def find_preferred_filter)
  next
    case (Cons p ps)
    then have "p \<in> set (filter (\<lambda>p. \<exists>a \<in> set available_models. sublist p a) preferred_models)"
      by simp
    then have "\<exists>a \<in> set available_models. sublist p a" by simp
    then obtain a where "List.find (sublist p) available_models = Some a"
      by (cases "List.find (sublist p) available_models") (auto simp: find_None_iff)
    with Cons show ?thesis
      by (simp add: select_model_def find_preferred_filter)
  qed
  have b: "select_model [] = None"
    by (simp add: select_model_def preferred_models_def)
  have c: "configure api key = Inr () \<and> list_models api = Inr [] \<longrightarrow>
      (\<exists>self'. fst (set_api_key self api key log) = Ret (True, self') \<and>
         model self' = None \<and> \<not> is_configured self')"
    by (simp add: set_api_key_returns b is_configured_def)
  from a b c get_compatible_model_returns[of api log] show ?thesis
    by (simp add: preferred_models_def)
qed

theorem model_selection_witness:
  "select_model [ascii ''models/gemini-pro'', ascii ''models/gemini-1.5-pro-latest''] =
     Some (ascii ''models/gemini-1.5-pro-latest'') \<and>
   select_model [ascii ''models/text-bison'', ascii ''models/embedding-001''] = Some (ascii ''models/text-bison'') \<and>
   configure empty_genai (ascii ''key'') = Inr () \<and> list_models empty_genai = Inr [] \<and>
   (\<exists>self'. fst (set_api_key unconfigured_generator empty_genai (ascii ''key'') []) = Ret (True, self') \<and>
      model self' = None \<and> \<not> is_configured self')"
proof -
  have a: "select_model [ascii ''models/gemini-pro'', ascii ''models/gemini-1.5-pro-latest''] =
     Some (ascii ''models/gemini-1.5-pro-latest'')"
    by code_simp
  have b: "select_model [ascii ''models/text-bison'', ascii ''models/embedding-001''] = Some (ascii ''models/text-bison'')"
    by code_simp
  have c: "configure empty_genai (ascii ''key'') = Inr () \<and> list_models empty_genai = Inr []"
    by (simp add: empty_genai_def)
  show ?thesis
    using a b c model_selection[of "[]" empty_genai "[]" "ascii ''key''" unconfigured_generator]
    by simp
qed

section \<open>Properties of the transcript\<close>

lemma add_messages_append:
  "messages st = Some ms \<Longrightarrow>
     add_messages st calls = Inr (st\<lparr>messages := Some (ms @ map new_message calls)\<rparr>)"
proof (induction calls arbitrary: st ms)
  case Nil
  then show ?case by simp
next
  case (Cons c calls)
  obtain now r k where c: "c = (now, r, k)" by (cases c) auto
  let ?st' = "st\<lparr>messages := Some (ms @ [new_message c])\<rparr>"
  from Cons.prems c have step: "add_message st now r k = Inr ?st'"
    by (simp add: add_message_def new_message_def)
  have "messages ?st' = Some (ms @ [new_message c])" by simp
  from Cons.IH[OF this] step c show ?case by simp
qed

lemma read_after_append:
  "messages st = Some ms \<Longrightarrow> read_after st calls = Inr (ms @ map new_message calls)"
  by (simp add: read_after_def add_messages_append all_messages_def)

lemma new_message_fields:
  "map (\<lambda>m. (timestamp m, role m, content m)) (map new_message calls) = calls"
  by (induction calls) (simp_all add: new_message_def)

text \<open>
  C8. After \<open>N\<close> calls of \<open>add_message\<close> on the transcript of a newly initialised
  session, reading the transcript gives exactly \<open>N\<close> messages, whose timestamps (the
  clock's readings at the calls), roles and contents are those of the calls, in the order
  of the calls. On a transcript that already holds messages the new ones follow them:
  nothing is dropped, merged or capped.
\<close>

theorem append_then_read:
  "read_after (initialize_session_state fresh_session) calls = Inr (map new_message calls) \<and>
   length (map new_message calls) = length calls \<and>
   map (\<lambda>m. (timestamp m, role m, content m)) (map new_message calls) = calls \<and>
   read_after (st\<lparr>messages := Some ms\<rparr>) calls = Inr (ms @ map new_message calls)"
proof -
  have "messages (initialize_session_state fresh_session) = Some []"
    by (simp add: initialize_session_state_def fresh_session_def)
  then have "read_after (initialize_session_state fresh_session) calls = Inr ([] @ map new_message calls)"
    by (rule read_after_append)
  moreover have "read_after (st\<lparr>messages := Some ms\<rparr>) calls = Inr (ms @ map new_message calls)"
    by (rule read_after_append) simp
  ultimately show ?thesis using new_message_fields[of calls] by (simp del: map_map)
qed

theorem append_then_read_witness:
  "read_after (initialize_session_state fresh_session) example_calls =
     Inr [\<lparr>role = ascii ''user'', content = ascii ''Autores de California'', timestamp = ascii ''2025-01-01T10:00:00''\<rparr>,
          \<lparr>role = ascii ''assistant'', content = ascii ''Consulta SQL generada'', timestamp = ascii ''2025-01-01T10:00:02''\<rparr>,
          \<lparr>role = ascii ''user'', content = ascii ''Autores de California'', timestamp = ascii ''2025-01-01T10:00:09''\<rparr>]"
  using append_then_read[of example_calls]
  by (simp add: example_calls_def new_message_def)

lemma export_loop_concat:
  "export_loop acc i ms = acc @ concat (map (\<lambda>(j, m). export_block j m) (enumerate i ms))"
  by (induction ms arbitrary: acc i) simp_all

lemma export_block_form:
  "export_block i m =
     ascii ''## '' @ role_label m @ ascii '' - Mensaje '' @ str_nat (i + 1) @ nl @ nl @
     content m @ nl @ nl @ ascii ''---'' @ nl @ nl"
  by (simp add: export_block_def role_label_def Let_def ascii_simps)

lemma str_nat_1: "str_nat (Suc 0) = ascii ''1''"
  by code_simp

lemma str_nat_2: "str_nat (Suc (Suc 0)) = ascii ''2''"
  by code_simp

text \<open>
  C9. On an empty transcript \<open>export_chat\<close> returns \<open>No hay mensajes para exportar\<close>.
  On a transcript of \<open>N > 0\<close> messages the exported text is the header followed by
  exactly \<open>N\<close> blocks, in the order of the messages; the block of the message at
  position \<open>i\<close> (from \<open>0\<close>) begins with the role label and the index \<open>i + 1\<close> and goes
  on with the message's content and a rule.
\<close>

theorem export_chat_blocks:
  "export_chat (st\<lparr>messages := Some []\<rparr>) now = Inr (ascii ''No hay mensajes para exportar'') \<and>
   (ms \<noteq> [] \<longrightarrow>
      (\<exists>blocks. export_chat (st\<lparr>messages := Some ms\<rparr>) now =
                  Inr (export_header now @ concat blocks) \<and>
         length blocks = length ms \<and>
         (\<forall>i < length ms. blocks ! i =
            ascii ''## '' @ role_label (ms ! i) @ ascii '' - Mensaje '' @ str_nat (i + 1) @ nl @ nl @
            content (ms ! i) @ nl @ nl @ ascii ''---'' @ nl @ nl)))"
proof -
  have a: "export_chat (st\<lparr>messages := Some []\<rparr>) now = Inr (ascii ''No hay mensajes para exportar'')"
    by (simp add: export_chat_def)
  have b: "ms \<noteq> [] \<longrightarrow>
      (\<exists>blocks. export_chat (st\<lparr>messages := Some ms\<rparr>) now =
                  Inr (export_header now @ concat blocks) \<and>
         length blocks = length ms \<and>
         (\<forall>i < length ms. blocks ! i =
            ascii ''## '' @ role_label (ms ! i) @ ascii '' - Mensaje '' @ str_nat (i + 1) @ nl @ nl @
            content (ms ! i) @ nl @ nl @ ascii ''---'' @ nl @ nl))"
  proof
    assume ne: "ms \<noteq> []"
    let ?blocks = "map (\<lambda>(j, m). export_block j m) (enumerate 0 ms)"
    from ne have e: "export_chat (st\<lparr>messages := Some ms\<rparr>) now =
        Inr (export_header now @ concat ?blocks)"
      by (simp add: export_chat_def export_loop_concat)
    have l: "length ?blocks = length ms" by simp
    have f: "\<forall>i < length ms. ?blocks ! i =
            ascii ''## '' @ role_label (ms ! i) @ ascii '' - Mensaje '' @ str_nat (i + 1) @ nl @ nl @
            content (ms ! i) @ nl @ nl @ ascii ''---'' @ nl @ nl"
      by (simp add: export_block_form nth_enumerate_eq)
    from e l f show "\<exists>blocks. export_chat (st\<lparr>messages := Some ms\<rparr>) now =
                  Inr (export_header now @ concat blocks) \<and>
         length blocks = length ms \<and>
         (\<forall>i < length ms. blocks ! i =
            ascii ''## '' @ role_label (ms ! i) @ ascii '' - Mensaje '' @ str_nat (i + 1) @ nl @ nl @
            content (ms ! i) @ nl @ nl @ ascii ''---'' @ nl @ nl)"
      by blast
  qed
  from a b show ?thesis by blast
qed

theorem export_chat_blocks_witness:
  "example_transcript \<noteq> [] \<and>
   (\<exists>blocks. export_chat \<lparr>messages = Some example_transcript\<rparr> (ascii ''2025-01-01 10:01:00'') =
                Inr (export_header (ascii ''2025-01-01 10:01:00'') @ concat blocks) \<and>
      length blocks = 2 \<and>
      blocks ! 0 = ascii ''## '' @ user_icon @ ascii '' Usuario - Mensaje 1'' @ nl @ nl @
                   ascii ''Autores de California'' @ nl @ nl @ ascii ''---'' @ nl @ nl \<and>
      blocks ! 1 = ascii ''## '' @ robot_icon @ ascii '' Assistant - Mensaje 2'' @ nl @ nl @
                   ascii ''Consulta SQL generada'' @ nl @ nl @ ascii ''---'' @ nl @ nl)"
proof -
  have ne: "example_transcript \<noteq> []" by (simp add: example_transcript_def)
  have len: "length example_transcript = 2" by (simp add: example_transcript_def)
  from ne export_chat_blocks[of "\<lparr>messages = None\<rparr>" "ascii ''2025-01-01 10:01:00''" example_transcript]
  obtain blocks where e: "export_chat \<lparr>messages = Some example_transcript\<rparr> (ascii ''2025-01-01 10:01:00'') =
                Inr (export_header (ascii ''2025-01-01 10:01:00'') @ concat blocks)"
    and l: "length blocks = length example_transcript"
    and f: "\<forall>i < length example_transcript. blocks ! i =
            ascii ''## '' @ role_label (example_transcript ! i) @ ascii '' - Mensaje '' @ str_nat (i + 1) @
            nl @ nl @ content (example_transcript ! i) @ nl @ nl @ ascii ''---'' @ nl @ nl"
    by auto
  from f len have b0: "blocks ! 0 = ascii ''## '' @ role_label (example_transcript ! 0) @ ascii '' - Mensaje '' @
      str_nat (0 + 1) @ nl @ nl @ content (example_transcript ! 0) @ nl @ nl @ ascii ''---'' @ nl @ nl"
    by simp
  from f len have b1: "blocks ! 1 = ascii ''## '' @ role_label (example_transcript ! 1) @ ascii '' - Mensaje '' @
      str_nat (1 + 1) @ nl @ nl @ content (example_transcript ! 1) @ nl @ nl @ ascii ''---'' @ nl @ nl"
    by simp
  from b0 have c0: "blocks ! 0 = ascii ''## '' @ user_icon @ ascii '' Usuario - Mensaje 1'' @ nl @ nl @
                   ascii ''Autores de California'' @ nl @ nl @ ascii ''---'' @ nl @ nl"
    by (simp add: example_transcript_def role_label_def str_nat_1 ascii_simps)
  from b1 have c1: "blocks ! 1 = ascii ''## '' @ robot_icon @ ascii '' Assistant - Mensaje 2'' @ nl @ nl @
                   ascii ''Consulta SQL generada'' @ nl @ nl @ ascii ''---'' @ nl @ nl"
    by (simp add: example_transcript_def role_label_def str_nat_2 ascii_simps)
  from ne e l len c0 c1 show ?thesis by auto
qed

end
